theory Spec2Isabelle
  imports Main
begin

section \<open>Data model of the test runner\<close>

text \<open>Time is a discrete clock; a \<^verbatim>\<open>time.Duration\<close> is a number of ticks.\<close>

type_synonym time = nat

text \<open>
  Modelled from the spec: \<^verbatim>\<open>target.Target\<close> is declared in \<^verbatim>\<open>pkg/target\<close>; the
  specification gives it a unique \<^verbatim>\<open>ID\<close> (string), a \<^verbatim>\<open>Name\<close> and an \<^verbatim>\<open>FQDN\<close>.
\<close>

record target =
  ID :: string
  Name :: string
  FQDN :: string

text \<open>
  Modelled from the spec: \<^verbatim>\<open>cerrors.TargetError\<close> is the pair of a target and the error a
  step reports for it. The routing code observes the \<^verbatim>\<open>error\<close> interface value only through
  a nil test and \<^verbatim>\<open>Error()\<close>, so the value is represented by its message; \<open>None\<close> is nil.
\<close>

record TargetError =
  Target :: target
  Err :: "string option"

text \<open>
  An error built by \<^verbatim>\<open>fmt.Errorf(format, args...)\<close> is kept as the format string of the
  source and its arguments, unformatted. An error that comes from elsewhere (emitter,
  pipeline) is a message without arguments.
\<close>

datatype fmt_arg =
    ArgString string
  | ArgInt int
  | ArgDuration time
  | ArgTarget target
  | ArgTargetError TargetError
  | ArgError error
and error = Errorf string "fmt_arg list"

record TestRunnerTimeouts =
  StepInjectTimeout :: time
  MessageTimeout :: time
  ShutdownTimeout :: time
  StepShutdownTimeout :: time

record injectionResult =
  target :: target
  err :: "error option"

section \<open>Select statements that carry a timer\<close>

text \<open>
  Every \<^verbatim>\<open>select\<close> of the target writer has the shape
  \<^verbatim>\<open>select { case c0; ...; case <-time.After(d) }\<close>.
  A case is described by the time from which its communication can proceed (\<open>None\<close>: never).
  The statement is entered at time \<open>now\<close>; a case that was ready before can proceed at
  \<open>now\<close>. The statement fires at the earliest time at which some case can proceed, and
  the runtime picks one of the cases that can proceed then (the \<open>seed\<close> stands for its
  pseudo-random choice). The timer is the last case, with index \<open>length cs\<close>.
\<close>

definition ready_at :: "time \<Rightarrow> time option \<Rightarrow> time option" where
  "ready_at now c = map_option (max now) c"

definition select_cases :: "time \<Rightarrow> time option list \<Rightarrow> time \<Rightarrow> time option list" where
  "select_cases now cs d = map (ready_at now) cs @ [Some (now + d)]"

definition select_fires :: "time \<Rightarrow> time option list \<Rightarrow> time \<Rightarrow> time" where
  "select_fires now cs d = min_list ((now + d) # List.map_filter (ready_at now) cs)"

definition select_candidates :: "time \<Rightarrow> time option list \<Rightarrow> time \<Rightarrow> nat list" where
  "select_candidates now cs d =
     filter (\<lambda>i. select_cases now cs d ! i = Some (select_fires now cs d)) [0..<Suc (length cs)]"

definition select_after :: "nat \<Rightarrow> time \<Rightarrow> time option list \<Rightarrow> time \<Rightarrow> nat \<times> time" where
  "select_after seed now cs d =
     (let cands = select_candidates now cs d
      in (cands ! (seed mod length cands), select_fires now cs d))"

section \<open>The target writer\<close>

text \<open>
  \<^verbatim>\<open>writeTimeout\<close>: \<open>ctxDone\<close> is the time at which the context is cancelled, \<open>chReady\<close> the
  time from which the channel accepts the send. The result is the returned error, the list
  of values sent on the channel, and the time of return.
\<close>

definition writeTimeout ::
  "nat \<Rightarrow> time \<Rightarrow> time option \<Rightarrow> time option \<Rightarrow> target \<Rightarrow> time
     \<Rightarrow> error option \<times> target list \<times> time" where
  "writeTimeout seed start ctxDone chReady tgt timeout =
     (case select_after seed start [ctxDone, chReady] timeout of
        (0, t) \<Rightarrow> (None, [], t)
      | (Suc 0, t) \<Rightarrow> (None, [tgt], t)
      | (_, t) \<Rightarrow>
          (Some (Errorf ''timeout (%v) while writing target %+v'' [ArgDuration timeout, ArgTarget tgt]),
           [], t))"

definition writeTargetError ::
  "nat \<Rightarrow> time \<Rightarrow> time option \<Rightarrow> time option \<Rightarrow> TargetError \<Rightarrow> time
     \<Rightarrow> error option \<times> TargetError list \<times> time" where
  "writeTargetError seed start ctxDone chReady targetError timeout =
     (case select_after seed start [ctxDone, chReady] timeout of
        (0, t) \<Rightarrow> (None, [], t)
      | (Suc 0, t) \<Rightarrow> (None, [targetError], t)
      | (_, t) \<Rightarrow>
          (Some (Errorf ''timeout while writing targetError %+v'' [ArgTargetError targetError]),
           [], t))"

text \<open>
  \<^verbatim>\<open>writeTargetWithResult\<close> returns nothing; what it does is the list of targets sent on
  \<^verbatim>\<open>stepIn\<close>, the list of records sent on \<^verbatim>\<open>resultCh\<close>, whether it returned or
  panicked, and when.
\<close>

datatype outcome = Returned | Panicked error

definition writeTargetWithResult ::
  "TestRunnerTimeouts \<Rightarrow> nat \<Rightarrow> nat \<Rightarrow> time \<Rightarrow> time option \<Rightarrow> time option \<Rightarrow> time option
     \<Rightarrow> target \<Rightarrow> target list \<times> injectionResult list \<times> outcome \<times> time" where
  "writeTargetWithResult w seed1 seed2 start ctxDone stepInReady resultReady tgt =
     (case writeTimeout seed1 start ctxDone stepInReady tgt (StepInjectTimeout w) of
        (e, sent, t1) \<Rightarrow>
          (case select_after seed2 t1 [ctxDone, resultReady] (MessageTimeout w) of
             (0, t2) \<Rightarrow> (sent, [], Returned, t2)
           | (Suc 0, t2) \<Rightarrow> (sent, [\<lparr>target = tgt, injectionResult.err = e\<rparr>], Returned, t2)
           | (_, t2) \<Rightarrow>
               (sent, [],
                Panicked (Errorf ''timeout while writing result for target %+v after %v''
                           [ArgTarget tgt, ArgDuration (MessageTimeout w)]), t2)))"

section \<open>Events and their payload\<close>

text \<open>
  Modelled from the spec: the event names are declared in \<^verbatim>\<open>pkg/target\<close>; the core emits
  exactly four of them.
\<close>

datatype event_name = EventTargetIn | EventTargetInErr | EventTargetOut | EventTargetErr

text \<open>
  \<^verbatim>\<open>testevent.Data\<close> as the routing code fills it: the payload is a pointer to the raw
  JSON bytes, \<open>None\<close> when the field is left nil.
\<close>

record Data =
  EventName :: event_name
  Target :: target
  Payload :: "string option"

text \<open>
  Modelled from the spec: \<^verbatim>\<open>target.ErrPayload\<close> is declared in \<^verbatim>\<open>pkg/target\<close>; it is a
  struct with the one string field \<^verbatim>\<open>Error\<close>, encoded under the key \<^verbatim>\<open>"Error"\<close>.
\<close>

record ErrPayload =
  Error :: string

subsection \<open>The string encoder of Go's \<^verbatim>\<open>encoding/json\<close>\<close>

text \<open>
  A Go string is a sequence of bytes. \<^verbatim>\<open>json.Marshal\<close> writes a string between double
  quotes and escapes, with \<^verbatim>\<open>escapeHTML\<close> set: the double quote, the backslash, the
  control characters, and the characters \<^verbatim>\<open><\<close>, \<^verbatim>\<open>>\<close> and \<^verbatim>\<open>&\<close>; a byte
  that does not start a valid UTF-8 sequence becomes the escape of U+FFFD, and U+2028 and U+2029 are
  escaped. An \<^verbatim>\<open>Encoder\<close> after \<^verbatim>\<open>SetEscapeHTML(false)\<close> runs the same code with
  \<^verbatim>\<open>escapeHTML\<close> unset, and leaves \<^verbatim>\<open><\<close>, \<^verbatim>\<open>>\<close> and \<^verbatim>\<open>&\<close> as they are.
  (Control characters are written \<^verbatim>\<open>\u00XX\<close> except \<^verbatim>\<open>\n\<close>, \<^verbatim>\<open>\r\<close>, \<^verbatim>\<open>\t\<close>, as
  the library did when this code was written.)
\<close>

definition byte :: "char \<Rightarrow> nat" where
  "byte c = of_char c"

definition hex :: string where
  "hex = ''0123456789abcdef''"

definition safeSet :: "char \<Rightarrow> bool" where
  "safeSet b \<longleftrightarrow> 0x20 \<le> byte b \<and> byte b < 0x80 \<and> b \<noteq> CHR 0x22 \<and> b \<noteq> CHR 0x5C"

definition htmlSafeSet :: "char \<Rightarrow> bool" where
  "htmlSafeSet b \<longleftrightarrow> safeSet b \<and> b \<noteq> CHR ''<'' \<and> b \<noteq> CHR ''>'' \<and> b \<noteq> CHR ''&''"

definition between :: "nat \<Rightarrow> nat \<Rightarrow> char \<Rightarrow> bool" where
  "between lo hi b \<longleftrightarrow> lo \<le> byte b \<and> byte b \<le> hi"

text \<open>
  \<^verbatim>\<open>utf8.DecodeRuneInString\<close>, as far as the encoder needs it: the number of bytes of the
  rune that starts the string, or \<open>None\<close> where the library returns \<^verbatim>\<open>(RuneError, 1)\<close>.
\<close>

fun rune_size :: "string \<Rightarrow> nat option" where
  "rune_size [] = None"
| "rune_size (b0 # rest) =
     (let x = byte b0 in
      if x < 0x80 then Some 1
      else if 0xC2 \<le> x \<and> x \<le> 0xDF then
        (case rest of
           b1 # _ \<Rightarrow> if between 0x80 0xBF b1 then Some 2 else None
         | _ \<Rightarrow> None)
      else if 0xE0 \<le> x \<and> x \<le> 0xEF then
        (case rest of
           b1 # b2 # _ \<Rightarrow>
             if between (if x = 0xE0 then 0xA0 else 0x80) (if x = 0xED then 0x9F else 0xBF) b1
                \<and> between 0x80 0xBF b2
             then Some 3 else None
         | _ \<Rightarrow> None)
      else if 0xF0 \<le> x \<and> x \<le> 0xF4 then
        (case rest of
           b1 # b2 # b3 # _ \<Rightarrow>
             if between (if x = 0xF0 then 0x90 else 0x80) (if x = 0xF4 then 0x8F else 0xBF) b1
                \<and> between 0x80 0xBF b2 \<and> between 0x80 0xBF b3
             then Some 4 else None
         | _ \<Rightarrow> None)
      else None)"

fun encode_string :: "bool \<Rightarrow> string \<Rightarrow> string" where
  "encode_string escapeHTML [] = []"
| "encode_string escapeHTML (b # bs) =
     (if byte b < 0x80 then
        (if htmlSafeSet b \<or> (\<not> escapeHTML \<and> safeSet b) then [b]
         else CHR 0x5C #
           (if b = CHR 0x5C \<or> b = CHR 0x22 then [b]
            else if b = CHR 0x0A then ''n''
            else if b = CHR 0x0D then ''r''
            else if b = CHR 0x09 then ''t''
            else ''u00'' @ [hex ! (byte b div 16), hex ! (byte b mod 16)]))
        @ encode_string escapeHTML bs
      else
        (case rune_size (b # bs) of
           None \<Rightarrow> CHR 0x5C # ''ufffd'' @ encode_string escapeHTML bs
         | Some n \<Rightarrow>
             (let r = take n (b # bs) in
              if r = [CHR 0xE2, CHR 0x80, CHR 0xA8] then CHR 0x5C # ''u2028''
              else if r = [CHR 0xE2, CHR 0x80, CHR 0xA9] then CHR 0x5C # ''u2029''
              else r)
             @ encode_string escapeHTML (drop (n - 1) bs)))"

definition quote :: "bool \<Rightarrow> string \<Rightarrow> string" where
  "quote escapeHTML s = CHR 0x22 # encode_string escapeHTML s @ [CHR 0x22]"

text \<open>The encoding of an \<^verbatim>\<open>ErrPayload\<close> struct, with and without HTML escaping.\<close>

definition encode_ErrPayload :: "bool \<Rightarrow> ErrPayload \<Rightarrow> string" where
  "encode_ErrPayload escapeHTML p =
     CHR ''{'' # quote False ''Error'' @ CHR '':'' # quote escapeHTML (Error p) @ [CHR ''}'']"

text \<open>\<^verbatim>\<open>json.Marshal\<close> escapes HTML; on this struct it cannot fail.\<close>

definition json_Marshal :: "ErrPayload \<Rightarrow> string \<times> error option" where
  "json_Marshal p = (encode_ErrPayload True p, None)"

section \<open>The routing block\<close>

text \<open>
  Modelled from the spec: \<^verbatim>\<open>test.TestStepBundle\<close> is declared in \<^verbatim>\<open>pkg/test\<close>; the routing
  code reads its \<^verbatim>\<open>TestStepLabel\<close> only.
\<close>

record TestStepBundle =
  TestStepLabel :: string

text \<open>
  What a routing activity does to the world besides its channels: the calls of
  \<^verbatim>\<open>r.ev.Emit\<close>, in order, and the format strings of its \<^verbatim>\<open>Warnf\<close> calls.
\<close>

record effects =
  emitted :: "Data list"
  warnings :: "string list"

text \<open>How one iteration of a \<^verbatim>\<open>for { select ... }\<close> loop ends.\<close>

datatype 'a loop = Continue 'a | Break 'a | Panic error 'a

text \<open>
  A run of a loop over a finite schedule: the loop is still waiting in its \<^verbatim>\<open>select\<close>
  when the schedule is used up, or it has left the loop, or the process has panicked;
  \<open>Impossible\<close> marks a schedule that names a \<^verbatim>\<open>select\<close> case which cannot proceed.
\<close>

datatype 'a run = Running 'a | Exited 'a | Crashed error 'a | Impossible

subsection \<open>\<^verbatim>\<open>routeIn\<close>\<close>

text \<open>
  The local variables of \<^verbatim>\<open>routeIn\<close> and what it has done so far. \<open>targets\<close> is the
  \<^verbatim>\<open>container/list\<close>: its head is the front, its last element the back. \<open>routeIn_open\<close>
  is false once \<^verbatim>\<open>r.routingChannels.routeIn\<close> has been set to nil. \<open>writers\<close> are the
  targets of the injection goroutines that were started and whose result has not been
  received. \<open>received\<close> and \<open>injected\<close> are the targets read from \<^verbatim>\<open>routeIn\<close> and the
  targets handed to \<^verbatim>\<open>writeTargetWithResult\<close>, in order; \<open>stepIn_closes\<close> counts the calls
  of \<^verbatim>\<open>close(stepIn)\<close>.
\<close>

record routeIn_vars = effects +
  routeIn_err :: "error option"
  routeInProgress :: bool
  targets :: "target list"
  ingressTarget :: "string \<rightharpoonup> time"
  routeIn_open :: bool
  writers :: "target list"
  received :: "target list"
  injected :: "target list"
  stepIn_closes :: nat

definition routeIn_init :: routeIn_vars where
  "routeIn_init =
     \<lparr>emitted = [], warnings = [], routeIn_err = None, routeInProgress = False, targets = [],
      ingressTarget = Map.empty, routeIn_open = True, writers = [], received = [],
      injected = [], stepIn_closes = 0\<rparr>"

text \<open>
  The case the \<^verbatim>\<open>select\<close> of \<^verbatim>\<open>routeIn\<close> takes. An injection result comes from one of the
  running writers (its index), with the error of the injection and with what \<^verbatim>\<open>Emit\<close>
  answers to the event that follows. A case can be taken only where \<open>routeIn_enabled\<close>
  holds: a result needs a running writer, and a nil channel is never received from.
\<close>

datatype routeIn_event =
    CtxWaitFor
  | InjectResult nat "error option" "error option"
  | RouteInRecv target
  | RouteInClosed

fun routeIn_enabled :: "routeIn_vars \<Rightarrow> routeIn_event \<Rightarrow> bool" where
  "routeIn_enabled s CtxWaitFor = True"
| "routeIn_enabled s (InjectResult i e emitErr) = (i < length (writers s))"
| "routeIn_enabled s (RouteInRecv t) = routeIn_open s"
| "routeIn_enabled s RouteInClosed = routeIn_open s"

fun routeIn_select :: "string \<Rightarrow> routeIn_vars \<Rightarrow> routeIn_event \<Rightarrow> routeIn_vars" where
  "routeIn_select stepLabel s CtxWaitFor =
     s\<lparr>routeIn_err :=
         Some (Errorf ''termination requested for routing into %s'' [ArgString stepLabel])\<rparr>"
| "routeIn_select stepLabel s (InjectResult i e emitErr) =
     (let t = writers s ! i;
          s1 = s\<lparr>routeInProgress := False,
                 writers := take i (writers s) @ drop (Suc i) (writers s)\<rparr>
      in if e \<noteq> None then
           s1\<lparr>routeIn_err :=
                 Some (Errorf ''routing failed while injecting target %+v into %s''
                         [ArgTarget t, ArgString stepLabel]),
               emitted := emitted s1 @ [\<lparr>EventName = EventTargetInErr, Target = t, Payload = None\<rparr>],
               warnings := warnings s1 @
                 (if emitErr \<noteq> None then [''could not emit %v event for target %+v: %v'']
                  else [])\<rparr>
         else
           s1\<lparr>emitted := emitted s1 @ [\<lparr>EventName = EventTargetIn, Target = t, Payload = None\<rparr>],
               warnings := warnings s1 @
                 (if emitErr \<noteq> None then [''could not emit %v event for Target: %+v'']
                  else [])\<rparr>)"
| "routeIn_select stepLabel s (RouteInRecv t) =
     s\<lparr>targets := t # targets s, received := received s @ [t]\<rparr>"
| "routeIn_select stepLabel s RouteInClosed = s\<lparr>routeIn_open := False\<rparr>"

text \<open>The rest of the loop body, after the \<^verbatim>\<open>select\<close>.\<close>

definition routeIn_dispatch :: "time \<Rightarrow> routeIn_vars \<Rightarrow> routeIn_vars loop" where
  "routeIn_dispatch now s =
     (if routeIn_err s \<noteq> None then Break s
      else if routeInProgress s then Continue s
      else if length (targets s) = 0 then
        (if \<not> routeIn_open s then Break (s\<lparr>stepIn_closes := Suc (stepIn_closes s)\<rparr>)
         else Continue s)
      else
        (let t = last (targets s)
         in Continue
              (s\<lparr>ingressTarget := (ingressTarget s)(ID t \<mapsto> now),
                 targets := butlast (targets s),
                 routeInProgress := True,
                 writers := writers s @ [t],
                 injected := injected s @ [t]\<rparr>)))"

definition routeIn_iter :: "string \<Rightarrow> time \<Rightarrow> routeIn_vars \<Rightarrow> routeIn_event \<Rightarrow> routeIn_vars loop" where
  "routeIn_iter stepLabel now s ev = routeIn_dispatch now (routeIn_select stepLabel s ev)"

text \<open>The loop, over a schedule of \<^verbatim>\<open>select\<close> cases with the clock at each.\<close>

fun routeIn_loop :: "string \<Rightarrow> routeIn_vars \<Rightarrow> (time \<times> routeIn_event) list \<Rightarrow> routeIn_vars run" where
  "routeIn_loop stepLabel s [] = Running s"
| "routeIn_loop stepLabel s ((now, ev) # evs) =
     (if \<not> routeIn_enabled s ev then Impossible
      else case routeIn_iter stepLabel now s ev of
             Continue s' \<Rightarrow> routeIn_loop stepLabel s' evs
           | Break s' \<Rightarrow> Exited s'
           | Panic p s' \<Rightarrow> Crashed p s')"

text \<open>What \<^verbatim>\<open>routeIn\<close> returns once the loop is left.\<close>

definition routeIn_return :: "routeIn_vars \<Rightarrow> int \<times> error option" where
  "routeIn_return s =
     (case routeIn_err s of
        Some e \<Rightarrow> (0, Some e)
      | None \<Rightarrow> (int (card (dom (ingressTarget s))), None))"

subsection \<open>\<^verbatim>\<open>emitOutEvent\<close>\<close>

text \<open>
  \<open>e\<close> is the error of the target (nil for a target that left the step on \<^verbatim>\<open>stepOut\<close>),
  \<open>emitErr\<close> what \<^verbatim>\<open>Emit\<close> answers. The result is the event handed to \<^verbatim>\<open>Emit\<close>, the
  warnings logged inside, and the returned error.
\<close>

definition emitOutEvent :: "target \<Rightarrow> string option \<Rightarrow> error option \<Rightarrow> Data \<times> string list \<times> error option" where
  "emitOutEvent t e emitErr =
     (case e of
        Some msg \<Rightarrow>
          (let targetErrPayload = \<lparr>Error = msg\<rparr>;
               (payloadEncoded, marshalErr) = json_Marshal targetErrPayload;
               rawPayload = payloadEncoded
           in (\<lparr>EventName = EventTargetErr, Target = t, Payload = Some rawPayload\<rparr>,
               (if marshalErr \<noteq> None then [''could not encode target error ('%s'): %v''] else []),
               emitErr))
      | None \<Rightarrow>
          (\<lparr>EventName = EventTargetOut, Target = t, Payload = None\<rparr>,
           (if emitErr \<noteq> None then [''could not emit %v event for target: %v''] else []),
           None))"

subsection \<open>\<^verbatim>\<open>routeOut\<close>\<close>

text \<open>
  \<open>stepOut_open\<close> and \<open>stepErr_open\<close> are false once the channel variable has been set to
  nil. \<open>forwarded\<close> are the targets sent on \<^verbatim>\<open>routeOut\<close>, \<open>failed\<close> the values sent on
  \<^verbatim>\<open>targetErr\<close>, in order; \<open>routeOut_closes\<close> counts the calls of \<^verbatim>\<open>close(routeOut)\<close>.
\<close>

record routeOut_vars = effects +
  routeOut_err :: "error option"
  egressTarget :: "string \<rightharpoonup> time"
  stepOut_open :: bool
  stepErr_open :: bool
  forwarded :: "target list"
  failed :: "TargetError list"
  routeOut_closes :: nat

definition routeOut_init :: routeOut_vars where
  "routeOut_init =
     \<lparr>emitted = [], warnings = [], routeOut_err = None, egressTarget = Map.empty,
      stepOut_open = True, stepErr_open = True, forwarded = [], failed = [],
      routeOut_closes = 0\<rparr>"

text \<open>
  The scheduling of one forward: the seed of the \<^verbatim>\<open>select\<close> in the writer, the time at
  which the context is done, and the time from which the receiver is ready.
\<close>

type_synonym sched = "nat \<times> time option \<times> time option"

datatype routeOut_event =
    OutCtxWaitFor
  | StepOutRecv target "error option" sched
  | StepOutClosed
  | StepErrRecv TargetError "error option" sched
  | StepErrClosed

fun routeOut_enabled :: "routeOut_vars \<Rightarrow> routeOut_event \<Rightarrow> bool" where
  "routeOut_enabled s OutCtxWaitFor = True"
| "routeOut_enabled s (StepOutRecv t emitErr sch) = stepOut_open s"
| "routeOut_enabled s StepOutClosed = stepOut_open s"
| "routeOut_enabled s (StepErrRecv targetError emitErr sch) = stepErr_open s"
| "routeOut_enabled s StepErrClosed = stepErr_open s"

text \<open>The \<^verbatim>\<open>select\<close> of \<^verbatim>\<open>routeOut\<close>: the new state, and the panic if there is one.\<close>

fun routeOut_select ::
  "TestRunnerTimeouts \<Rightarrow> string \<Rightarrow> time \<Rightarrow> routeOut_vars \<Rightarrow> routeOut_event
     \<Rightarrow> routeOut_vars \<times> error option" where
  "routeOut_select timeouts stepLabel now s OutCtxWaitFor =
     (s\<lparr>routeOut_err :=
          Some (Errorf ''termination requested for routing into %s'' [ArgString stepLabel])\<rparr>,
      None)"
| "routeOut_select timeouts stepLabel now s StepOutClosed = (s\<lparr>stepOut_open := False\<rparr>, None)"
| "routeOut_select timeouts stepLabel now s (StepOutRecv t emitErr (seed, ctxDone, chReady)) =
     (case egressTarget s (ID t) of
        Some _ \<Rightarrow>
          (s\<lparr>routeOut_err :=
               Some (Errorf ''step %s returned target %+v multiple times''
                       [ArgString stepLabel, ArgTarget t])\<rparr>,
           None)
      | None \<Rightarrow>
          (case emitOutEvent t None emitErr of
             (ev, logged, r) \<Rightarrow>
               (let s1 = s\<lparr>emitted := emitted s @ [ev],
                            warnings := warnings s @ logged @
                              (if r \<noteq> None then [''could not emit out event for target %v: %v'']
                               else [])\<rparr>;
                    s2 = s1\<lparr>egressTarget := (egressTarget s1)(ID t \<mapsto> now)\<rparr>
                in case writeTimeout seed now ctxDone chReady t (MessageTimeout timeouts) of
                     (Some e, sent, _) \<Rightarrow>
                       (s2, Some (Errorf ''could not forward target to the test runner: %+v''
                                    [ArgError e]))
                   | (None, sent, _) \<Rightarrow> (s2\<lparr>forwarded := forwarded s2 @ sent\<rparr>, None))))"
| "routeOut_select timeouts stepLabel now s StepErrClosed = (s\<lparr>stepErr_open := False\<rparr>, None)"
| "routeOut_select timeouts stepLabel now s (StepErrRecv targetError emitErr (seed, ctxDone, chReady)) =
     (case egressTarget s (ID (TargetError.Target targetError)) of
        Some _ \<Rightarrow>
          (s\<lparr>routeOut_err :=
               Some (Errorf ''step %s returned target %+v multiple times''
                       [ArgString stepLabel, ArgTarget (TargetError.Target targetError)])\<rparr>,
           None)
      | None \<Rightarrow>
          (case emitOutEvent (TargetError.Target targetError) (Err targetError) emitErr of
             (ev, logged, r) \<Rightarrow>
               (let s1 = s\<lparr>emitted := emitted s @ [ev],
                            warnings := warnings s @ logged @
                              (if r \<noteq> None then [''could not emit err event for target: %v'']
                               else [])\<rparr>;
                    s2 = s1\<lparr>egressTarget :=
                              (egressTarget s1)(ID (TargetError.Target targetError) \<mapsto> now)\<rparr>
                in case writeTargetError seed now ctxDone chReady targetError
                          (MessageTimeout timeouts) of
                     (Some e, sent, _) \<Rightarrow>
                       (s2, Some (Errorf ''could not forward target (%+v) to the test runner: %v''
                                    [ArgTarget (TargetError.Target targetError), ArgError e]))
                   | (None, sent, _) \<Rightarrow> (s2\<lparr>failed := failed s2 @ sent\<rparr>, None))))"

definition routeOut_iter ::
  "TestRunnerTimeouts \<Rightarrow> string \<Rightarrow> time \<Rightarrow> routeOut_vars \<Rightarrow> routeOut_event \<Rightarrow> routeOut_vars loop" where
  "routeOut_iter timeouts stepLabel now s ev =
     (case routeOut_select timeouts stepLabel now s ev of
        (s', Some p) \<Rightarrow> Panic p s'
      | (s', None) \<Rightarrow>
          (if routeOut_err s' \<noteq> None then Break s'
           else if \<not> stepErr_open s' \<and> \<not> stepOut_open s' then
             Break (s'\<lparr>routeOut_closes := Suc (routeOut_closes s')\<rparr>)
           else Continue s'))"

fun routeOut_loop ::
  "TestRunnerTimeouts \<Rightarrow> string \<Rightarrow> routeOut_vars \<Rightarrow> (time \<times> routeOut_event) list
     \<Rightarrow> routeOut_vars run" where
  "routeOut_loop timeouts stepLabel s [] = Running s"
| "routeOut_loop timeouts stepLabel s ((now, ev) # evs) =
     (if \<not> routeOut_enabled s ev then Impossible
      else case routeOut_iter timeouts stepLabel now s ev of
             Continue s' \<Rightarrow> routeOut_loop timeouts stepLabel s' evs
           | Break s' \<Rightarrow> Exited s'
           | Panic p s' \<Rightarrow> Crashed p s')"

definition routeOut_return :: "routeOut_vars \<Rightarrow> int \<times> error option" where
  "routeOut_return s =
     (case routeOut_err s of
        Some e \<Rightarrow> (0, Some e)
      | None \<Rightarrow> (int (card (dom (egressTarget s))), None))"

subsection \<open>\<^verbatim>\<open>route\<close>\<close>

record routeResult =
  "bundle" :: TestStepBundle
  err :: "error option"

text \<open>The error \<^verbatim>\<open>route\<close> makes of what the two activities returned.\<close>

definition routingErr ::
  "TestStepBundle \<Rightarrow> int \<times> error option \<Rightarrow> int \<times> error option \<Rightarrow> error option" where
  "routingErr b rin rout =
     (case (rin, rout) of
        ((inTargets, errRouteIn), (outTargets, errRouteOut)) \<Rightarrow>
          (let routingErr = errRouteIn;
               routingErr = (if routingErr = None then errRouteOut else routingErr)
           in if routingErr = None \<and> inTargets \<noteq> outTargets then
                Some (Errorf
                  ''step %s completed but did not return all injected Targets (%d!=%d)''
                  [ArgString (TestStepLabel b), ArgInt inTargets, ArgInt outTargets])
              else routingErr))"

datatype route_end = Delivered routeResult | RoutePanic error | RouteWaiting | RouteImpossible

text \<open>
  \<^verbatim>\<open>route\<close> runs the two activities (each over its own schedule), waits for both, and
  sends the result: \<open>joined\<close> is the time at which both have returned, \<open>resultReady\<close> the
  time from which the pipeline receives on \<^verbatim>\<open>resultCh\<close>.
\<close>

definition route ::
  "TestRunnerTimeouts \<Rightarrow> TestStepBundle \<Rightarrow> (time \<times> routeIn_event) list
     \<Rightarrow> (time \<times> routeOut_event) list \<Rightarrow> nat \<Rightarrow> time \<Rightarrow> time option \<Rightarrow> route_end" where
  "route timeouts b evsIn evsOut seed joined resultReady =
     (case routeOut_loop timeouts (TestStepLabel b) routeOut_init evsOut of
        Impossible \<Rightarrow> RouteImpossible
      | Crashed p _ \<Rightarrow> RoutePanic p
      | Running _ \<Rightarrow>
          (case routeIn_loop (TestStepLabel b) routeIn_init evsIn of
             Impossible \<Rightarrow> RouteImpossible
           | Crashed p _ \<Rightarrow> RoutePanic p
           | _ \<Rightarrow> RouteWaiting)
      | Exited so \<Rightarrow>
          (case routeIn_loop (TestStepLabel b) routeIn_init evsIn of
             Impossible \<Rightarrow> RouteImpossible
           | Crashed p _ \<Rightarrow> RoutePanic p
           | Running _ \<Rightarrow> RouteWaiting
           | Exited si \<Rightarrow>
               (case select_after seed joined [resultReady] (MessageTimeout timeouts) of
                  (0, _) \<Rightarrow>
                    Delivered \<lparr>bundle = b, err = routingErr b (routeIn_return si) (routeOut_return so)\<rparr>
                | (_, _) \<Rightarrow> RoutePanic (Errorf ''could not send routing block result'' []))))"

section \<open>The test runner\<close>

text \<open>
  Modelled from the spec: \<^verbatim>\<open>test.Test\<close> is declared in \<^verbatim>\<open>pkg/test\<close>; \<^verbatim>\<open>Run\<close> reads
  its list of step bundles.
\<close>

record Test =
  TestStepsBundles :: "TestStepBundle list"

text \<open>
  What \<^verbatim>\<open>Run\<close> sets in motion, in order, and what its final loop receives: the error the
  pipeline's \<^verbatim>\<open>run\<close> returned (on \<^verbatim>\<open>errCh\<close>) or a completed target. The pipeline itself
  is outside this file.
\<close>

datatype run_action =
    NewPipeline "TestStepBundle list"
  | PipelineInit
  | GoInjectTargets "target list"
  | GoPipelineRun

datatype run_event = ErrCh "error option" | CompletedTarget target

text \<open>The final loop: \<open>None\<close> while it is still waiting.\<close>

fun Run_wait :: "run_event list \<Rightarrow> error option option" where
  "Run_wait [] = None"
| "Run_wait (ErrCh e # evs) = Some e"
| "Run_wait (CompletedTarget t # evs) = Run_wait evs"

definition Run :: "Test \<Rightarrow> target list \<Rightarrow> run_event list \<Rightarrow> run_action list \<times> error option option" where
  "Run test tgts evs =
     (if length (TestStepsBundles test) = 0 then
        ([], Some (Some (Errorf ''no steps to run for test'' [])))
      else
        ([NewPipeline (TestStepsBundles test), PipelineInit, GoInjectTargets tgts, GoPipelineRun],
         Run_wait evs))"

section \<open>Example values\<close>

abbreviation ex_target :: target where
  "ex_target \<equiv> \<lparr>ID = ''t1'', Name = ''host1'', FQDN = ''host1.example.com''\<rparr>"

abbreviation ex_timeouts :: TestRunnerTimeouts where
  "ex_timeouts \<equiv> \<lparr>StepInjectTimeout = 30, MessageTimeout = 5, ShutdownTimeout = 1,
     StepShutdownTimeout = 1\<rparr>"

abbreviation ex_target2 :: target where
  "ex_target2 \<equiv> \<lparr>ID = ''t2'', Name = ''host2'', FQDN = ''host2.example.com''\<rparr>"

abbreviation ex_bundle :: TestStepBundle where
  "ex_bundle \<equiv> \<lparr>TestStepLabel = ''step1''\<rparr>"

section \<open>Invariants of \<^verbatim>\<open>routeIn\<close>\<close>

text \<open>
  What holds of the variables of \<^verbatim>\<open>routeIn\<close> after every iteration; while the loop runs;
  and once it is left.
\<close>

definition routeIn_common :: "routeIn_vars \<Rightarrow> bool" where
  "routeIn_common s \<longleftrightarrow>
     length (writers s) \<le> 1 \<and> (routeInProgress s \<longleftrightarrow> writers s \<noteq> [])
     \<and> received s = injected s @ rev (targets s)
     \<and> dom (ingressTarget s) = ID ` set (injected s)"

definition routeIn_running :: "routeIn_vars \<Rightarrow> bool" where
  "routeIn_running s \<longleftrightarrow> routeIn_common s \<and> routeIn_err s = None \<and> stepIn_closes s = 0"

definition routeIn_exited :: "routeIn_vars \<Rightarrow> bool" where
  "routeIn_exited s \<longleftrightarrow>
     routeIn_common s \<and>
     (case routeIn_err s of
        None \<Rightarrow> stepIn_closes s = 1 \<and> \<not> routeIn_open s \<and> targets s = [] \<and> writers s = []
      | Some e \<Rightarrow> stepIn_closes s = 0)"

section \<open>Observations on \<^verbatim>\<open>routeOut\<close> and on the log\<close>

text \<open>The state in which an iteration ends, however it ends.\<close>

fun loop_state :: "'a loop \<Rightarrow> 'a" where
  "loop_state (Continue s) = s"
| "loop_state (Break s) = s"
| "loop_state (Panic p s) = s"

text \<open>
  The IDs of the targets that \<^verbatim>\<open>routeOut\<close> has passed on, on \<^verbatim>\<open>routeOut\<close> and on
  \<^verbatim>\<open>targetErr\<close>; they are pairwise different and recorded in the egress map.
\<close>

definition egress_ids :: "routeOut_vars \<Rightarrow> string list" where
  "egress_ids s = map ID (forwarded s) @ map (\<lambda>x. ID (TargetError.Target x)) (failed s)"

definition routeOut_inv :: "routeOut_vars \<Rightarrow> bool" where
  "routeOut_inv s \<longleftrightarrow> distinct (egress_ids s) \<and> set (egress_ids s) \<subseteq> dom (egressTarget s)"

text \<open>
  \<open>silent\<close> forgets the warnings of a state; \<open>hush_in\<close> and \<open>hush_out\<close> turn a
  \<^verbatim>\<open>select\<close> case in which \<^verbatim>\<open>Emit\<close> fails into the same case with \<^verbatim>\<open>Emit\<close> succeeding.
\<close>

definition silent :: "'a effects_scheme \<Rightarrow> 'a effects_scheme" where
  "silent s = s\<lparr>warnings := []\<rparr>"

fun hush_in :: "routeIn_event \<Rightarrow> routeIn_event" where
  "hush_in (InjectResult i e emitErr) = InjectResult i e None"
| "hush_in ev = ev"

fun hush_out :: "routeOut_event \<Rightarrow> routeOut_event" where
  "hush_out (StepOutRecv t emitErr sch) = StepOutRecv t None sch"
| "hush_out (StepErrRecv te emitErr sch) = StepErrRecv te None sch"
| "hush_out ev = ev"

section \<open>Properties of select\<close>

lemma min_list_mem: "xs \<noteq> [] \<Longrightarrow> min_list xs \<in> set (xs :: nat list)"
  by (simp add: min_list_Min)

lemma select_fires_in:
  "select_fires now cs d = now + d
    \<or> (\<exists>i<length cs. ready_at now (cs ! i) = Some (select_fires now cs d))"
proof -
  let ?ts = "(now + d) # List.map_filter (ready_at now) cs"
  have "min_list ?ts \<in> set ?ts"
    by (rule min_list_mem) simp
  then have "select_fires now cs d = now + d
      \<or> select_fires now cs d \<in> set (List.map_filter (ready_at now) cs)"
    unfolding select_fires_def by simp
  then show ?thesis
  proof
    assume "select_fires now cs d = now + d" then show ?thesis by simp
  next
    assume "select_fires now cs d \<in> set (List.map_filter (ready_at now) cs)"
    then obtain c where c: "c \<in> set cs" "ready_at now c = Some (select_fires now cs d)"
      unfolding List.map_filter_def by auto
    from c(1) obtain i where "i < length cs" "cs ! i = c"
      by (auto simp: in_set_conv_nth)
    with c(2) show ?thesis by blast
  qed
qed

text \<open>Some case can always proceed when the statement fires, so the choice is well defined.\<close>

lemma select_candidates_nonempty: "select_candidates now cs d \<noteq> []"
proof -
  have "\<exists>i\<le>length cs. select_cases now cs d ! i = Some (select_fires now cs d)"
  proof (rule disjE [OF select_fires_in [of now cs d]])
    assume "select_fires now cs d = now + d"
    then have "select_cases now cs d ! length cs = Some (select_fires now cs d)"
      by (simp add: select_cases_def nth_append)
    then show ?thesis by blast
  next
    assume "\<exists>i<length cs. ready_at now (cs ! i) = Some (select_fires now cs d)"
    then obtain i where i: "i < length cs" "ready_at now (cs ! i) = Some (select_fires now cs d)"
      by blast
    then have "select_cases now cs d ! i = Some (select_fires now cs d)"
      by (simp add: select_cases_def nth_append)
    moreover from i(1) have "i \<le> length cs" by simp
    ultimately show ?thesis by blast
  qed
  then obtain i where "i \<le> length cs"
      "select_cases now cs d ! i = Some (select_fires now cs d)"
    by blast
  then have "i \<in> set [0..<Suc (length cs)]"
      "select_cases now cs d ! i = Some (select_fires now cs d)"
    by (simp_all only: set_upt atLeastLessThan_iff less_Suc_eq_le le0 simp_thms)
  then show ?thesis
    unfolding select_candidates_def filter_empty_conv by blast
qed

lemma select_after_bound: "fst (select_after seed now cs d) \<le> length cs"
proof -
  let ?cands = "select_candidates now cs d"
  have "?cands ! (seed mod length ?cands) \<in> set ?cands"
    using select_candidates_nonempty [of now cs d] by (intro nth_mem) simp
  moreover have "set ?cands \<subseteq> set [0..<Suc (length cs)]"
    unfolding select_candidates_def by (rule filter_is_subset)
  ultimately have "?cands ! (seed mod length ?cands) \<in> set [0..<Suc (length cs)]"
    by (rule rev_subsetD)
  then have "?cands ! (seed mod length ?cands) \<le> length cs"
    by (simp only: set_upt atLeastLessThan_iff less_Suc_eq_le)
  then show ?thesis
    unfolding select_after_def Let_def by simp
qed

lemmas select_unfold =
  select_after_def select_candidates_def select_cases_def select_fires_def
  ready_at_def Let_def min_def max_def nth_Cons'

text \<open>With two cases and the timer: the case that can proceed strictly first is taken.\<close>

lemma select2_timer:
  assumes "\<forall>t. a = Some t \<longrightarrow> now + d < t" "\<forall>t. b = Some t \<longrightarrow> now + d < t"
  shows "select_after seed now [a, b] d = (2, now + d)"
  using assms by (cases a; cases b) (auto simp: select_unfold)

lemma select2_first:
  assumes "a = Some t" "max now t < now + d" "\<forall>u. b = Some u \<longrightarrow> max now t < max now u"
  shows "select_after seed now [a, b] d = (0, max now t)"
  using assms by (cases b) (auto simp: select_unfold)

lemma select2_second:
  assumes "b = Some u" "max now u < now + d" "\<forall>t. a = Some t \<longrightarrow> max now u < max now t"
  shows "select_after seed now [a, b] d = (1, max now u)"
  using assms by (cases a) (auto simp: select_unfold)

lemma select2_cases:
  obtains t where "select_after seed now [a, b] d = (0, t)"
  | t where "select_after seed now [a, b] d = (1, t)"
  | t where "select_after seed now [a, b] d = (2, t)"
proof -
  obtain i t where it: "select_after seed now [a, b] d = (i, t)"
    by (cases "select_after seed now [a, b] d")
  have "i \<le> 2"
    using select_after_bound [of seed now "[a, b]" d] it by simp
  then have "i = 0 \<or> i = 1 \<or> i = 2" by arith
  with it that show thesis by blast
qed

lemma min_list_le_hd: "min_list (x # xs) \<le> (x::nat)"
  by (cases xs) simp_all

lemma select_fires_le: "select_fires now cs d \<le> now + d"
  unfolding select_fires_def by (rule min_list_le_hd)

section \<open>The target writer: claims\<close>

text \<open>
  Claim C3. \<^verbatim>\<open>writeTimeout\<close>, and \<^verbatim>\<open>writeTargetError\<close> with the same contract for
  \<^verbatim>\<open>TargetError\<close> values: when neither the cancellation of the context nor the
  readiness of the channel comes within the timeout \<open>d\<close>, the call returns the timeout
  error and has sent nothing; when the context is cancelled strictly first, it returns nil
  and has sent nothing (the send is abandoned); when the send can proceed strictly first, it
  returns nil and has sent the value. In every case the value is sent at most once, and not
  at all when an error is returned: there is no retry.
\<close>

theorem writeTimeout_contract:
  fixes tgt :: target and te :: TargetError
  defines "wt \<equiv> \<lambda>seed start ctxDone chReady d. writeTimeout seed start ctxDone chReady tgt d"
    and "we \<equiv> \<lambda>seed start ctxDone chReady d. writeTargetError seed start ctxDone chReady te d"
  shows
    "((\<forall>c. ctxDone = Some c \<longrightarrow> start + d < c) \<and> (\<forall>u. chReady = Some u \<longrightarrow> start + d < u) \<longrightarrow>
        wt seed start ctxDone chReady d =
          (Some (Errorf ''timeout (%v) while writing target %+v'' [ArgDuration d, ArgTarget tgt]),
           [], start + d) \<and>
        we seed start ctxDone chReady d =
          (Some (Errorf ''timeout while writing targetError %+v'' [ArgTargetError te]),
           [], start + d))
     \<and> (\<forall>c. ctxDone = Some c \<and> max start c < start + d
            \<and> (\<forall>u. chReady = Some u \<longrightarrow> max start c < max start u) \<longrightarrow>
          wt seed start ctxDone chReady d = (None, [], max start c) \<and>
          we seed start ctxDone chReady d = (None, [], max start c))
     \<and> (\<forall>u. chReady = Some u \<and> max start u < start + d
            \<and> (\<forall>c. ctxDone = Some c \<longrightarrow> max start u < max start c) \<longrightarrow>
          wt seed start ctxDone chReady d = (None, [tgt], max start u) \<and>
          we seed start ctxDone chReady d = (None, [te], max start u))
     \<and> length (fst (snd (wt seed start ctxDone chReady d))) \<le> 1
     \<and> length (fst (snd (we seed start ctxDone chReady d))) \<le> 1
     \<and> (fst (wt seed start ctxDone chReady d) \<noteq> None \<longrightarrow>
          fst (snd (wt seed start ctxDone chReady d)) = [])
     \<and> (fst (we seed start ctxDone chReady d) \<noteq> None \<longrightarrow>
          fst (snd (we seed start ctxDone chReady d)) = [])"
proof -
  have timer: "(\<forall>c. ctxDone = Some c \<longrightarrow> start + d < c) \<and> (\<forall>u. chReady = Some u \<longrightarrow> start + d < u) \<longrightarrow>
        wt seed start ctxDone chReady d =
          (Some (Errorf ''timeout (%v) while writing target %+v'' [ArgDuration d, ArgTarget tgt]),
           [], start + d) \<and>
        we seed start ctxDone chReady d =
          (Some (Errorf ''timeout while writing targetError %+v'' [ArgTargetError te]),
           [], start + d)"
    by (simp add: wt_def we_def writeTimeout_def writeTargetError_def select2_timer)
  have ctx: "\<forall>c. ctxDone = Some c \<and> max start c < start + d
            \<and> (\<forall>u. chReady = Some u \<longrightarrow> max start c < max start u) \<longrightarrow>
          wt seed start ctxDone chReady d = (None, [], max start c) \<and>
          we seed start ctxDone chReady d = (None, [], max start c)"
    by (simp add: wt_def we_def writeTimeout_def writeTargetError_def select2_first)
  have sent: "\<forall>u. chReady = Some u \<and> max start u < start + d
            \<and> (\<forall>c. ctxDone = Some c \<longrightarrow> max start u < max start c) \<longrightarrow>
          wt seed start ctxDone chReady d = (None, [tgt], max start u) \<and>
          we seed start ctxDone chReady d = (None, [te], max start u)"
    by (simp add: wt_def we_def writeTimeout_def writeTargetError_def select2_second)
  have once: "length (fst (snd (wt seed start ctxDone chReady d))) \<le> 1
     \<and> length (fst (snd (we seed start ctxDone chReady d))) \<le> 1
     \<and> (fst (wt seed start ctxDone chReady d) \<noteq> None \<longrightarrow>
          fst (snd (wt seed start ctxDone chReady d)) = [])
     \<and> (fst (we seed start ctxDone chReady d) \<noteq> None \<longrightarrow>
          fst (snd (we seed start ctxDone chReady d)) = [])"
    by (rule select2_cases [of seed start ctxDone chReady d])
       (simp_all add: wt_def we_def writeTimeout_def writeTargetError_def)
  from timer ctx sent once show ?thesis by blast
qed


theorem writeTimeout_contract_witness:
  "writeTimeout 0 0 None None ex_target 5
      = (Some (Errorf ''timeout (%v) while writing target %+v''
                 [ArgDuration 5, ArgTarget ex_target]), [], 5)
   \<and> writeTimeout 0 0 (Some 2) (Some 4) ex_target 5 = (None, [], 2)
   \<and> writeTimeout 0 0 (Some 4) (Some 2) ex_target 5
      = (None, [ex_target], 2)
   \<and> writeTargetError 0 0 (Some 9) None
        \<lparr>TargetError.Target = ex_target, Err = Some ''boom''\<rparr> 5
      = (Some (Errorf ''timeout while writing targetError %+v''
           [ArgTargetError \<lparr>TargetError.Target = ex_target, Err = Some ''boom''\<rparr>]),
         [], 5)"
  using
    writeTimeout_contract [of None 0 5 None 0 "ex_target"]
    writeTimeout_contract [of "Some 2" 0 5 "Some 4" 0 "ex_target"]
    writeTimeout_contract [of "Some 4" 0 5 "Some 2" 0 "ex_target"]
    writeTimeout_contract [of "Some 9" 0 5 None 0 _
       "\<lparr>TargetError.Target = ex_target, Err = Some ''boom''\<rparr>"]
  by simp

text \<open>
  Claim C4. \<^verbatim>\<open>writeTargetWithResult\<close> first attempts the injection with the
  \<^verbatim>\<open>StepInject\<close> timeout; let \<open>e\<close> be the error of that attempt and \<open>t1\<close> the time it
  returns. If the result channel is ready within the \<^verbatim>\<open>Message\<close> timeout (and before any
  cancellation), the record \<open>{target, e}\<close> is posted and the function returns. If neither
  readiness nor cancellation comes within the \<^verbatim>\<open>Message\<close> timeout, the function panics
  and posts nothing. In every case it ends at most \<^verbatim>\<open>MessageTimeout\<close> after the injection
  attempt, and whatever it posts is that record.
\<close>

theorem writeTargetWithResult_posts_or_panics:
  assumes "writeTimeout seed1 start ctxDone stepInReady tgt (StepInjectTimeout w) = (e, sent, t1)"
  shows
    "(\<forall>u. resultReady = Some u \<and> max t1 u < t1 + MessageTimeout w
          \<and> (\<forall>c. ctxDone = Some c \<longrightarrow> max t1 u < max t1 c) \<longrightarrow>
        writeTargetWithResult w seed1 seed2 start ctxDone stepInReady resultReady tgt
          = (sent, [\<lparr>target = tgt, injectionResult.err = e\<rparr>], Returned, max t1 u))
     \<and> ((\<forall>c. ctxDone = Some c \<longrightarrow> t1 + MessageTimeout w < c)
          \<and> (\<forall>u. resultReady = Some u \<longrightarrow> t1 + MessageTimeout w < u) \<longrightarrow>
        writeTargetWithResult w seed1 seed2 start ctxDone stepInReady resultReady tgt
          = (sent, [],
             Panicked (Errorf ''timeout while writing result for target %+v after %v''
                        [ArgTarget tgt, ArgDuration (MessageTimeout w)]),
             t1 + MessageTimeout w))
     \<and> (case writeTargetWithResult w seed1 seed2 start ctxDone stepInReady resultReady tgt of
          (sent', posted, out, t2) \<Rightarrow>
            sent' = sent \<and> t2 \<le> t1 + MessageTimeout w
            \<and> (posted = [] \<or> posted = [\<lparr>target = tgt, injectionResult.err = e\<rparr>])
            \<and> (out = Returned \<or> posted = []))"
proof -
  let ?M = "MessageTimeout w"
  have post: "\<forall>u. resultReady = Some u \<and> max t1 u < t1 + ?M
          \<and> (\<forall>c. ctxDone = Some c \<longrightarrow> max t1 u < max t1 c) \<longrightarrow>
        writeTargetWithResult w seed1 seed2 start ctxDone stepInReady resultReady tgt
          = (sent, [\<lparr>target = tgt, injectionResult.err = e\<rparr>], Returned, max t1 u)"
    using assms by (simp add: writeTargetWithResult_def select2_second)
  have panic: "(\<forall>c. ctxDone = Some c \<longrightarrow> t1 + ?M < c)
          \<and> (\<forall>u. resultReady = Some u \<longrightarrow> t1 + ?M < u) \<longrightarrow>
        writeTargetWithResult w seed1 seed2 start ctxDone stepInReady resultReady tgt
          = (sent, [],
             Panicked (Errorf ''timeout while writing result for target %+v after %v''
                        [ArgTarget tgt, ArgDuration ?M]),
             t1 + ?M)"
    using assms by (simp add: writeTargetWithResult_def select2_timer)
  have le: "snd (select_after seed2 t1 [ctxDone, resultReady] ?M) \<le> t1 + ?M"
    by (simp add: select_after_def Let_def select_fires_le)
  have shape: "case writeTargetWithResult w seed1 seed2 start ctxDone stepInReady resultReady tgt of
          (sent', posted, out, t2) \<Rightarrow>
            sent' = sent \<and> t2 \<le> t1 + ?M
            \<and> (posted = [] \<or> posted = [\<lparr>target = tgt, injectionResult.err = e\<rparr>])
            \<and> (out = Returned \<or> posted = [])"
  proof (rule select2_cases [of seed2 t1 ctxDone resultReady ?M])
    fix t assume "select_after seed2 t1 [ctxDone, resultReady] ?M = (0, t)"
    with assms le show ?thesis by (simp add: writeTargetWithResult_def)
  next
    fix t assume "select_after seed2 t1 [ctxDone, resultReady] ?M = (1, t)"
    with assms le show ?thesis by (simp add: writeTargetWithResult_def)
  next
    fix t assume "select_after seed2 t1 [ctxDone, resultReady] ?M = (2, t)"
    with assms le show ?thesis by (simp add: writeTargetWithResult_def)
  qed
  from post panic shape show ?thesis by blast
qed

theorem writeTargetWithResult_posts_or_panics_witness:
  "writeTimeout 0 0 None (Some 3) ex_target (StepInjectTimeout ex_timeouts) = (None, [ex_target], 3)
   \<and> writeTargetWithResult ex_timeouts 0 0 0 None (Some 3) (Some 4) ex_target
       = ([ex_target], [\<lparr>target = ex_target, injectionResult.err = None\<rparr>], Returned, 4)
   \<and> writeTargetWithResult ex_timeouts 0 0 0 None (Some 3) None ex_target
       = ([ex_target], [],
          Panicked (Errorf ''timeout while writing result for target %+v after %v''
                     [ArgTarget ex_target, ArgDuration 5]), 8)"
proof -
  have h: "writeTimeout 0 0 None (Some 3) ex_target (StepInjectTimeout ex_timeouts)
            = (None, [ex_target], 3)"
    by (simp add: writeTimeout_def select_unfold)
  show ?thesis
    using h writeTargetWithResult_posts_or_panics [OF h, of "Some 4" 0]
      writeTargetWithResult_posts_or_panics [OF h, of None 0]
    by simp
qed

text \<open>
  Claim C10. If the context is cancelled before the result channel is ready (and before the
  \<^verbatim>\<open>Message\<close> timer fires), \<^verbatim>\<open>writeTargetWithResult\<close> returns normally, posts no
  record on the result channel and does not panic: the injection result is dropped.
\<close>

theorem writeTargetWithResult_drops_on_cancel:
  assumes "writeTimeout seed1 start ctxDone stepInReady tgt (StepInjectTimeout w) = (e, sent, t1)"
    and "ctxDone = Some c"
    and "max t1 c < t1 + MessageTimeout w"
    and "\<forall>u. resultReady = Some u \<longrightarrow> max t1 c < max t1 u"
  shows "writeTargetWithResult w seed1 seed2 start ctxDone stepInReady resultReady tgt
          = (sent, [], Returned, max t1 c)"
  using assms by (simp add: writeTargetWithResult_def select2_first)


theorem writeTargetWithResult_drops_on_cancel_witness:
  "writeTimeout 0 0 (Some 2) None ex_target (StepInjectTimeout ex_timeouts) = (None, [], 2)
   \<and> max 2 2 < 2 + MessageTimeout ex_timeouts
   \<and> writeTargetWithResult ex_timeouts 0 0 0 (Some 2) None (Some 4) ex_target
       = ([], [], Returned, 2)"
proof -
  have h: "writeTimeout 0 0 (Some 2) None ex_target (StepInjectTimeout ex_timeouts)
            = (None, [], 2)"
    by (simp add: writeTimeout_def select_unfold)
  have m: "max 2 (2::nat) < 2 + MessageTimeout ex_timeouts" by simp
  have r: "\<forall>u. Some 4 = Some u \<longrightarrow> max 2 (2::nat) < max 2 u" by simp
  show ?thesis
    using h m writeTargetWithResult_drops_on_cancel [OF h refl m r, of 0]
    by simp
qed

section \<open>\<^verbatim>\<open>routeIn\<close>: invariants and claims\<close>

lemma rev_last_butlast: "xs \<noteq> [] \<Longrightarrow> rev xs = last xs # rev (butlast xs)"
  by (induction xs rule: rev_induct) simp_all

lemma routeIn_select_common:
  assumes "routeIn_common s" "routeIn_enabled s ev"
  shows "routeIn_common (routeIn_select stepLabel s ev)
         \<and> stepIn_closes (routeIn_select stepLabel s ev) = stepIn_closes s"
proof (cases ev)
  case CtxWaitFor
  with assms show ?thesis by (simp add: routeIn_common_def)
next
  case (InjectResult i e emitErr)
  with assms have "i < length (writers s)" "length (writers s) \<le> 1" 
    by (simp_all add: routeIn_common_def)
  then have "i = 0" "take i (writers s) @ drop (Suc i) (writers s) = []" by simp_all
  with assms InjectResult show ?thesis by (simp add: routeIn_common_def Let_def)
next
  case (RouteInRecv t)
  with assms show ?thesis by (simp add: routeIn_common_def)
next
  case RouteInClosed
  with assms show ?thesis by (simp add: routeIn_common_def)
qed

lemma routeIn_dispatch_inv:
  assumes "routeIn_common s" "stepIn_closes s = 0"
  shows "case routeIn_dispatch now s of
           Continue s' \<Rightarrow> routeIn_running s'
         | Break s' \<Rightarrow> routeIn_exited s'
         | Panic p s' \<Rightarrow> False"
proof -
  consider (err) "routeIn_err s \<noteq> None"
    | (busy) "routeIn_err s = None" "routeInProgress s"
    | (closing) "routeIn_err s = None" "\<not> routeInProgress s" "targets s = []" "\<not> routeIn_open s"
    | (idle) "routeIn_err s = None" "\<not> routeInProgress s" "targets s = []" "routeIn_open s"
    | (launch) "routeIn_err s = None" "\<not> routeInProgress s" "targets s \<noteq> []"
    by blast
  then show ?thesis
  proof cases
    case err
    with assms show ?thesis
      by (auto simp: routeIn_dispatch_def routeIn_exited_def)
  next
    case busy
    with assms show ?thesis
      by (simp add: routeIn_dispatch_def routeIn_running_def)
  next
    case closing
    with assms show ?thesis
      by (simp add: routeIn_dispatch_def routeIn_exited_def routeIn_common_def)
  next
    case idle
    with assms show ?thesis
      by (simp add: routeIn_dispatch_def routeIn_running_def)
  next
    case launch
    with assms show ?thesis
      by (simp add: routeIn_dispatch_def routeIn_running_def routeIn_common_def Let_def
            rev_last_butlast)
  qed
qed

lemma routeIn_iter_inv:
  assumes "routeIn_running s" "routeIn_enabled s ev"
  shows "case routeIn_iter stepLabel now s ev of
           Continue s' \<Rightarrow> routeIn_running s'
         | Break s' \<Rightarrow> routeIn_exited s'
         | Panic p s' \<Rightarrow> False"
  unfolding routeIn_iter_def
  using routeIn_select_common [of s ev stepLabel] assms
  by (intro routeIn_dispatch_inv) (simp_all add: routeIn_running_def)

lemma routeIn_loop_inv:
  assumes "routeIn_running s"
  shows "case routeIn_loop stepLabel s evs of
           Running s' \<Rightarrow> routeIn_running s'
         | Exited s' \<Rightarrow> routeIn_exited s'
         | Crashed p s' \<Rightarrow> False
         | Impossible \<Rightarrow> True"
  using assms
proof (induction evs arbitrary: s)
  case Nil
  then show ?case by simp
next
  case (Cons a evs)
  obtain now ev where a: "a = (now, ev)" by (cases a)
  show ?case
  proof (cases "routeIn_enabled s ev")
    case False
    with a show ?thesis by simp
  next
    case True
    from routeIn_iter_inv [OF Cons.prems True, of stepLabel now]
    show ?thesis using a True Cons.IH
      by (cases "routeIn_iter stepLabel now s ev") simp_all
  qed
qed

lemma routeIn_init_running: "routeIn_running routeIn_init"
  by (simp add: routeIn_running_def routeIn_common_def routeIn_init_def)


lemmas routeIn_eval =
  routeIn_iter_def routeIn_dispatch_def routeIn_init_def Let_def

text \<open>
  Claim C5, as amended. In every run of \<^verbatim>\<open>routeIn\<close>, \<^verbatim>\<open>stepIn\<close> is closed at most once:
  it has not been closed while the loop runs; when the loop is left without an error it has
  been closed exactly once, and then the \<^verbatim>\<open>routeIn\<close> channel has been closed, the buffer
  of pending targets is empty and no injection is in flight; when the loop is left with an
  error (cancellation, or a failed injection) \<^verbatim>\<open>stepIn\<close> has not been closed at all.
  The loop itself never panics.
\<close>

theorem routeIn_closes_stepIn:
  "case routeIn_loop stepLabel routeIn_init evs of
     Running s \<Rightarrow> stepIn_closes s = 0
   | Exited s \<Rightarrow>
       (routeIn_err s = None \<longrightarrow>
          stepIn_closes s = 1 \<and> \<not> routeIn_open s \<and> targets s = []
          \<and> \<not> routeInProgress s \<and> writers s = [])
       \<and> (routeIn_err s \<noteq> None \<longrightarrow> stepIn_closes s = 0)
   | Crashed p s \<Rightarrow> False
   | Impossible \<Rightarrow> True"
  using routeIn_loop_inv [OF routeIn_init_running, of stepLabel evs]
  by (cases "routeIn_loop stepLabel routeIn_init evs")
     (auto simp: routeIn_running_def routeIn_exited_def routeIn_common_def)

theorem routeIn_closes_stepIn_witness:
  "(case routeIn_loop ''step1'' routeIn_init
           [(0, RouteInRecv ex_target), (1, InjectResult 0 None None), (2, RouteInClosed)] of
      Exited s \<Rightarrow> routeIn_err s = None \<and> stepIn_closes s = 1 \<and> \<not> routeIn_open s \<and> targets s = []
    | _ \<Rightarrow> False)
   \<and> (case routeIn_loop ''step1'' routeIn_init
           [(0, RouteInRecv ex_target), (1, InjectResult 0 (Some (Errorf ''timeout'' [])) None)] of
      Exited s \<Rightarrow> routeIn_err s \<noteq> None \<and> stepIn_closes s = 0
    | _ \<Rightarrow> False)"
  using
    routeIn_closes_stepIn [of "''step1''"
      "[(0, RouteInRecv ex_target), (1, InjectResult 0 None None), (2, RouteInClosed)]"]
    routeIn_closes_stepIn [of "''step1''"
      "[(0, RouteInRecv ex_target), (1, InjectResult 0 (Some (Errorf ''timeout'' [])) None)]"]
  by (simp add: routeIn_eval)

text \<open>
  The claim as written (every run closes \<^verbatim>\<open>stepIn\<close> exactly once) fails on a run that is
  cancelled: the loop is left with the termination error and \<^verbatim>\<open>stepIn\<close> is still open.
\<close>

theorem routeIn_closes_stepIn_counterexample:
  "routeIn_loop ''step1'' routeIn_init [(0, CtxWaitFor)]
     = Exited (routeIn_init\<lparr>routeIn_err :=
         Some (Errorf ''termination requested for routing into %s'' [ArgString ''step1''])\<rparr>)
   \<and> stepIn_closes (routeIn_init\<lparr>routeIn_err :=
         Some (Errorf ''termination requested for routing into %s'' [ArgString ''step1''])\<rparr>) = 0"
  by (simp add: routeIn_eval)

text \<open>
  Claim C6. After every iteration of the \<^verbatim>\<open>routeIn\<close> loop, at most one injection
  goroutine is in flight, and \<^verbatim>\<open>routeInProgress\<close> says whether there is one; the targets
  handed to the writer so far, in order, followed by the buffer read from its back to its
  front, are the targets received on \<^verbatim>\<open>routeIn\<close>, in order of arrival: injection is FIFO.
\<close>

theorem routeIn_one_inflight_fifo:
  "case routeIn_loop stepLabel routeIn_init evs of
     Running s \<Rightarrow>
       length (writers s) \<le> 1 \<and> (routeInProgress s \<longleftrightarrow> writers s \<noteq> [])
       \<and> received s = injected s @ rev (targets s)
   | Exited s \<Rightarrow>
       length (writers s) \<le> 1 \<and> (routeInProgress s \<longleftrightarrow> writers s \<noteq> [])
       \<and> received s = injected s @ rev (targets s)
   | Crashed p s \<Rightarrow> False
   | Impossible \<Rightarrow> True"
  using routeIn_loop_inv [OF routeIn_init_running, of stepLabel evs]
  by (cases "routeIn_loop stepLabel routeIn_init evs")
     (auto simp: routeIn_running_def routeIn_exited_def routeIn_common_def)

theorem routeIn_one_inflight_fifo_witness:
  "case routeIn_loop ''step1'' routeIn_init
          [(0, RouteInRecv ex_target), (1, RouteInRecv ex_target2), (2, InjectResult 0 None None)] of
     Running s \<Rightarrow>
       writers s = [ex_target2] \<and> routeInProgress s
       \<and> received s = [ex_target, ex_target2] \<and> injected s = [ex_target, ex_target2]
       \<and> targets s = []
   | _ \<Rightarrow> False"
  using routeIn_one_inflight_fifo [of "''step1''"
     "[(0, RouteInRecv ex_target), (1, RouteInRecv ex_target2), (2, InjectResult 0 None None)]"]
  by (simp add: routeIn_eval)

section \<open>\<^verbatim>\<open>routeOut\<close>: invariants and claims\<close>

lemma writeTimeout_sent:
  assumes "writeTimeout seed now c r t d = (e, sent, t')"
  shows "sent = [] \<or> sent = [t]"
proof (rule select2_cases [of seed now c r d])
  fix u assume "select_after seed now [c, r] d = (0, u)"
  with assms show ?thesis by (simp add: writeTimeout_def)
next
  fix u assume "select_after seed now [c, r] d = (1, u)"
  with assms show ?thesis by (auto simp add: writeTimeout_def)
next
  fix u assume "select_after seed now [c, r] d = (2, u)"
  with assms show ?thesis by (simp add: writeTimeout_def)
qed

lemma writeTargetError_sent:
  assumes "writeTargetError seed now c r te d = (e, sent, t')"
  shows "sent = [] \<or> sent = [te]"
proof (rule select2_cases [of seed now c r d])
  fix u assume "select_after seed now [c, r] d = (0, u)"
  with assms show ?thesis by (simp add: writeTargetError_def)
next
  fix u assume "select_after seed now [c, r] d = (1, u)"
  with assms show ?thesis by (auto simp add: writeTargetError_def)
next
  fix u assume "select_after seed now [c, r] d = (2, u)"
  with assms show ?thesis by (simp add: writeTargetError_def)
qed

lemma routeOut_select_inv:
  assumes "routeOut_inv s"
  shows "routeOut_inv (fst (routeOut_select timeouts stepLabel now s ev))"
proof (cases ev)
  case OutCtxWaitFor
  with assms show ?thesis by (simp add: routeOut_inv_def egress_ids_def)
next
  case StepOutClosed
  with assms show ?thesis by (simp add: routeOut_inv_def egress_ids_def)
next
  case StepErrClosed
  with assms show ?thesis by (simp add: routeOut_inv_def egress_ids_def)
next
  case (StepOutRecv t emitErr sch)
  obtain seed c r where sch: "sch = (seed, c, r)" by (cases sch)
  obtain e sent t' where w: "writeTimeout seed now c r t (MessageTimeout timeouts) = (e, sent, t')"
    by (cases "writeTimeout seed now c r t (MessageTimeout timeouts)")
  from writeTimeout_sent [OF w] have sent: "sent = [] \<or> sent = [t]" .
  show ?thesis
  proof (cases "egressTarget s (ID t)")
    case (Some a)
    with assms StepOutRecv sch show ?thesis by (simp add: routeOut_inv_def egress_ids_def)
  next
    case None
    then have "ID t \<notin> set (egress_ids s)" using assms by (auto simp: routeOut_inv_def)
    with assms StepOutRecv sch w None sent show ?thesis
      by (cases e) (auto simp: routeOut_inv_def egress_ids_def Let_def split: prod.splits)
  qed
next
  case (StepErrRecv te emitErr sch)
  obtain seed c r where sch: "sch = (seed, c, r)" by (cases sch)
  obtain e sent t' where w: "writeTargetError seed now c r te (MessageTimeout timeouts) = (e, sent, t')"
    by (cases "writeTargetError seed now c r te (MessageTimeout timeouts)")
  from writeTargetError_sent [OF w] have sent: "sent = [] \<or> sent = [te]" .
  show ?thesis
  proof (cases "egressTarget s (ID (TargetError.Target te))")
    case (Some a)
    with assms StepErrRecv sch show ?thesis by (simp add: routeOut_inv_def egress_ids_def)
  next
    case None
    then have "ID (TargetError.Target te) \<notin> set (egress_ids s)"
      using assms by (auto simp: routeOut_inv_def)
    with assms StepErrRecv sch w None sent show ?thesis
      by (cases e) (auto simp: routeOut_inv_def egress_ids_def Let_def split: prod.splits)
  qed
qed

lemma routeOut_iter_inv:
  assumes "routeOut_inv s"
  shows "routeOut_inv (loop_state (routeOut_iter timeouts stepLabel now s ev))"
proof -
  obtain s' p where sel: "routeOut_select timeouts stepLabel now s ev = (s', p)"
    by (cases "routeOut_select timeouts stepLabel now s ev")
  with routeOut_select_inv [OF assms, of timeouts stepLabel now ev] have "routeOut_inv s'" by simp
  with sel show ?thesis
    by (cases p) (simp_all add: routeOut_iter_def routeOut_inv_def egress_ids_def)
qed

lemma routeOut_loop_inv:
  assumes "routeOut_inv s"
  shows "case routeOut_loop timeouts stepLabel s evs of
           Running s' \<Rightarrow> routeOut_inv s'
         | Exited s' \<Rightarrow> routeOut_inv s'
         | Crashed p s' \<Rightarrow> routeOut_inv s'
         | Impossible \<Rightarrow> True"
  using assms
proof (induction evs arbitrary: s)
  case Nil
  then show ?case by simp
next
  case (Cons a evs)
  obtain now ev where a: "a = (now, ev)" by (cases a)
  show ?case
  proof (cases "routeOut_enabled s ev")
    case False
    with a show ?thesis by simp
  next
    case True
    from routeOut_iter_inv [OF Cons.prems, of timeouts stepLabel now ev]
    show ?thesis using a True Cons.IH
      by (cases "routeOut_iter timeouts stepLabel now s ev") simp_all
  qed
qed

lemma routeOut_init_inv: "routeOut_inv routeOut_init"
  by (simp add: routeOut_inv_def egress_ids_def routeOut_init_def)


lemmas routeOut_eval =
  routeOut_iter_def routeOut_init_def emitOutEvent_def json_Marshal_def
  writeTimeout_def writeTargetError_def select_unfold

lemmas json_eval = encode_ErrPayload_def quote_def byte_def safeSet_def htmlSafeSet_def hex_def
  between_def

text \<open>
  Claim C7. When \<^verbatim>\<open>routeOut\<close> receives, on \<^verbatim>\<open>stepOut\<close> or on \<^verbatim>\<open>stepErr\<close>, a target
  whose ID is already in the egress map, the iteration leaves the loop with the error
  ``step returned target multiple times'' and changes nothing else: no event is emitted,
  nothing is recorded and nothing is forwarded. Along every run of \<^verbatim>\<open>routeOut\<close>, however
  it ends, the IDs of the targets passed on (on \<^verbatim>\<open>routeOut\<close> and on \<^verbatim>\<open>targetErr\<close> taken
  together) are pairwise different, and each is recorded in the egress map.
\<close>

theorem routeOut_rejects_duplicates:
  "(egressTarget s (ID t) \<noteq> None \<longrightarrow>
      routeOut_iter timeouts stepLabel now s (StepOutRecv t emitErr sch)
        = Break (s\<lparr>routeOut_err :=
            Some (Errorf ''step %s returned target %+v multiple times''
                    [ArgString stepLabel, ArgTarget t])\<rparr>))
   \<and> (egressTarget s (ID (TargetError.Target te)) \<noteq> None \<longrightarrow>
      routeOut_iter timeouts stepLabel now s (StepErrRecv te emitErr sch)
        = Break (s\<lparr>routeOut_err :=
            Some (Errorf ''step %s returned target %+v multiple times''
                    [ArgString stepLabel, ArgTarget (TargetError.Target te)])\<rparr>))
   \<and> (case routeOut_loop timeouts stepLabel routeOut_init evs of
        Running s' \<Rightarrow>
          distinct (map ID (forwarded s') @ map (\<lambda>x. ID (TargetError.Target x)) (failed s'))
          \<and> set (map ID (forwarded s') @ map (\<lambda>x. ID (TargetError.Target x)) (failed s'))
                \<subseteq> dom (egressTarget s')
      | Exited s' \<Rightarrow>
          distinct (map ID (forwarded s') @ map (\<lambda>x. ID (TargetError.Target x)) (failed s'))
          \<and> set (map ID (forwarded s') @ map (\<lambda>x. ID (TargetError.Target x)) (failed s'))
                \<subseteq> dom (egressTarget s')
      | Crashed p s' \<Rightarrow>
          distinct (map ID (forwarded s') @ map (\<lambda>x. ID (TargetError.Target x)) (failed s'))
          \<and> set (map ID (forwarded s') @ map (\<lambda>x. ID (TargetError.Target x)) (failed s'))
                \<subseteq> dom (egressTarget s')
      | Impossible \<Rightarrow> True)"
proof -
  obtain seed c r where sch: "sch = (seed, c, r)" by (cases sch)
  have out: "egressTarget s (ID t) \<noteq> None \<longrightarrow>
      routeOut_iter timeouts stepLabel now s (StepOutRecv t emitErr sch)
        = Break (s\<lparr>routeOut_err :=
            Some (Errorf ''step %s returned target %+v multiple times''
                    [ArgString stepLabel, ArgTarget t])\<rparr>)"
    using sch by (auto simp: routeOut_iter_def)
  have err: "egressTarget s (ID (TargetError.Target te)) \<noteq> None \<longrightarrow>
      routeOut_iter timeouts stepLabel now s (StepErrRecv te emitErr sch)
        = Break (s\<lparr>routeOut_err :=
            Some (Errorf ''step %s returned target %+v multiple times''
                    [ArgString stepLabel, ArgTarget (TargetError.Target te)])\<rparr>)"
    using sch by (auto simp: routeOut_iter_def)
  have run: "case routeOut_loop timeouts stepLabel routeOut_init evs of
        Running s' \<Rightarrow>
          distinct (map ID (forwarded s') @ map (\<lambda>x. ID (TargetError.Target x)) (failed s'))
          \<and> set (map ID (forwarded s') @ map (\<lambda>x. ID (TargetError.Target x)) (failed s'))
                \<subseteq> dom (egressTarget s')
      | Exited s' \<Rightarrow>
          distinct (map ID (forwarded s') @ map (\<lambda>x. ID (TargetError.Target x)) (failed s'))
          \<and> set (map ID (forwarded s') @ map (\<lambda>x. ID (TargetError.Target x)) (failed s'))
                \<subseteq> dom (egressTarget s')
      | Crashed p s' \<Rightarrow>
          distinct (map ID (forwarded s') @ map (\<lambda>x. ID (TargetError.Target x)) (failed s'))
          \<and> set (map ID (forwarded s') @ map (\<lambda>x. ID (TargetError.Target x)) (failed s'))
                \<subseteq> dom (egressTarget s')
      | Impossible \<Rightarrow> True"
    using routeOut_loop_inv [OF routeOut_init_inv, of timeouts stepLabel evs]
    by (cases "routeOut_loop timeouts stepLabel routeOut_init evs")
       (simp_all add: routeOut_inv_def egress_ids_def)
  from out err run show ?thesis by blast
qed

theorem routeOut_rejects_duplicates_witness:
  "routeOut_loop ex_timeouts ''step1'' routeOut_init
          [(0, StepOutRecv ex_target None (0, None, Some 0)),
           (1, StepErrRecv \<lparr>TargetError.Target = ex_target, Err = Some ''boom''\<rparr> None (0, None, Some 1))]
     = Exited
         \<lparr>emitted = [\<lparr>EventName = EventTargetOut, Target = ex_target, Payload = None\<rparr>],
          warnings = [],
          routeOut_err = Some (Errorf ''step %s returned target %+v multiple times''
                                 [ArgString ''step1'', ArgTarget ex_target]),
          egressTarget = [''t1'' \<mapsto> 0],
          stepOut_open = True, stepErr_open = True,
          forwarded = [ex_target], failed = [], routeOut_closes = 0\<rparr>
   \<and> routeOut_loop ex_timeouts ''step1'' routeOut_init
          [(0, StepOutRecv ex_target None (0, None, Some 0)),
           (1, StepOutRecv ex_target None (0, None, Some 1))]
     = Exited
         \<lparr>emitted = [\<lparr>EventName = EventTargetOut, Target = ex_target, Payload = None\<rparr>],
          warnings = [],
          routeOut_err = Some (Errorf ''step %s returned target %+v multiple times''
                                 [ArgString ''step1'', ArgTarget ex_target]),
          egressTarget = [''t1'' \<mapsto> 0],
          stepOut_open = True, stepErr_open = True,
          forwarded = [ex_target], failed = [], routeOut_closes = 0\<rparr>"
proof -
  let ?s = "\<lparr>emitted = [\<lparr>EventName = EventTargetOut, Target = ex_target, Payload = None\<rparr>],
          warnings = [], routeOut_err = None, egressTarget = [''t1'' \<mapsto> (0::nat)],
          stepOut_open = True, stepErr_open = True,
          forwarded = [ex_target], failed = [], routeOut_closes = 0\<rparr>"
  let ?te = "\<lparr>TargetError.Target = ex_target, Err = Some ''boom''\<rparr>"
  have first: "routeOut_iter ex_timeouts ''step1'' 0 routeOut_init
                 (StepOutRecv ex_target None (0, None, Some 0)) = Continue ?s"
    by (simp add: routeOut_eval)
  have dup: "egressTarget ?s (ID (TargetError.Target ?te)) \<noteq> None"
      "egressTarget ?s (ID ex_target) \<noteq> None"
    by simp_all
  from routeOut_rejects_duplicates [where s = ?s and timeouts = ex_timeouts
      and stepLabel = "''step1''" and now = 1 and emitErr = None and sch = "(0, None, Some 1)"
      and te = ?te and t = ex_target] dup
  have "routeOut_iter ex_timeouts ''step1'' 1 ?s (StepErrRecv ?te None (0, None, Some 1))
        = Break (?s\<lparr>routeOut_err := Some (Errorf ''step %s returned target %+v multiple times''
                    [ArgString ''step1'', ArgTarget ex_target])\<rparr>)"
    and "routeOut_iter ex_timeouts ''step1'' 1 ?s (StepOutRecv ex_target None (0, None, Some 1))
        = Break (?s\<lparr>routeOut_err := Some (Errorf ''step %s returned target %+v multiple times''
                    [ArgString ''step1'', ArgTarget ex_target])\<rparr>)"
    by simp_all
  with first show ?thesis by (simp add: routeOut_init_def)
qed

text \<open>
  Claim C1, as amended. When \<^verbatim>\<open>routeOut\<close> receives on \<^verbatim>\<open>stepErr\<close> a target with a
  non-nil error of message \<open>m\<close>, and the ID of the target is not yet in the egress map, it
  calls \<^verbatim>\<open>Emit\<close> with a \<^verbatim>\<open>TargetErr\<close> event for that target whose payload is what
  \<^verbatim>\<open>json.Marshal\<close> makes of \<^verbatim>\<open>ErrPayload{Error: m}\<close>: the JSON object with the key
  \<^verbatim>\<open>Error\<close>, encoded with HTML escaping enabled.
\<close>

theorem routeOut_emits_TargetErr:
  assumes "Err te = Some m" and "egressTarget s (ID (TargetError.Target te)) = None"
  shows "emitted (loop_state (routeOut_iter timeouts stepLabel now s (StepErrRecv te emitErr sch)))
          = emitted s @
            [\<lparr>EventName = EventTargetErr, Target = TargetError.Target te,
              Payload = Some (encode_ErrPayload True \<lparr>Error = m\<rparr>)\<rparr>]
         \<and> emitOutEvent (TargetError.Target te) (Err te) emitErr
          = (\<lparr>EventName = EventTargetErr, Target = TargetError.Target te,
              Payload = Some (encode_ErrPayload True \<lparr>Error = m\<rparr>)\<rparr>, [], emitErr)"
proof -
  obtain seed c r where sch: "sch = (seed, c, r)" by (cases sch)
  obtain e sent t' where w:
    "writeTargetError seed now c r te (MessageTimeout timeouts) = (e, sent, t')"
    by (cases "writeTargetError seed now c r te (MessageTimeout timeouts)")
  have ev: "emitOutEvent (TargetError.Target te) (Err te) emitErr
          = (\<lparr>EventName = EventTargetErr, Target = TargetError.Target te,
              Payload = Some (encode_ErrPayload True \<lparr>Error = m\<rparr>)\<rparr>, [], emitErr)"
    using assms(1) by (simp add: emitOutEvent_def json_Marshal_def)
  have "emitted (loop_state (routeOut_iter timeouts stepLabel now s (StepErrRecv te emitErr sch)))
          = emitted s @
            [\<lparr>EventName = EventTargetErr, Target = TargetError.Target te,
              Payload = Some (encode_ErrPayload True \<lparr>Error = m\<rparr>)\<rparr>]"
    using assms(2) sch w ev
    by (cases e) (simp_all add: routeOut_iter_def Let_def)
  with ev show ?thesis by simp
qed

theorem routeOut_emits_TargetErr_witness:
  "Err \<lparr>TargetError.Target = ex_target, Err = Some ''a<b''\<rparr> = Some ''a<b''
   \<and> egressTarget routeOut_init (ID ex_target) = None
   \<and> emitted (loop_state (routeOut_iter ex_timeouts ''step1'' 0 routeOut_init
        (StepErrRecv \<lparr>TargetError.Target = ex_target, Err = Some ''a<b''\<rparr> None (0, None, Some 0))))
      = [\<lparr>EventName = EventTargetErr, Target = ex_target,
          Payload = Some (CHR ''{'' # CHR 0x22 # ''Error'' @ CHR 0x22 # CHR '':'' # CHR 0x22 #
                          ''a'' @ CHR 0x5C # ''u003cb'' @ [CHR 0x22, CHR ''}''])\<rparr>]"
  using routeOut_emits_TargetErr [where te = "\<lparr>TargetError.Target = ex_target, Err = Some ''a<b''\<rparr>"
      and m = "''a<b''" and s = routeOut_init and timeouts = ex_timeouts and stepLabel = "''step1''"
      and now = 0 and emitErr = None and sch = "(0, None, Some 0)"]
  by (simp add: routeOut_init_def json_eval)

text \<open>
  The claim as written fails in two ways. For the message \<^verbatim>\<open><\<close> the payload emitted
  holds the six characters of the escape (backslash, \<^verbatim>\<open>u003c\<close>), where the encoding
  without HTML escaping holds the character itself. And for a target whose ID is already in
  the egress map no event is emitted at all.
\<close>

theorem routeOut_emits_TargetErr_counterexample:
  "emitted (loop_state (routeOut_iter ex_timeouts ''step1'' 0 routeOut_init
        (StepErrRecv \<lparr>TargetError.Target = ex_target, Err = Some ''<''\<rparr> None (0, None, Some 0))))
      = [\<lparr>EventName = EventTargetErr, Target = ex_target,
          Payload = Some (CHR ''{'' # CHR 0x22 # ''Error'' @ CHR 0x22 # CHR '':'' # CHR 0x22 #
                          CHR 0x5C # ''u003c'' @ [CHR 0x22, CHR ''}''])\<rparr>]
   \<and> encode_ErrPayload False \<lparr>Error = ''<''\<rparr>
      = CHR ''{'' # CHR 0x22 # ''Error'' @ CHR 0x22 # CHR '':'' # CHR 0x22 #
          ''<'' @ [CHR 0x22, CHR ''}'']
   \<and> emitted (loop_state (routeOut_iter ex_timeouts ''step1'' 0 routeOut_init
        (StepErrRecv \<lparr>TargetError.Target = ex_target, Err = Some ''<''\<rparr> None (0, None, Some 0))))
      \<noteq> [\<lparr>EventName = EventTargetErr, Target = ex_target,
          Payload = Some (encode_ErrPayload False \<lparr>Error = ''<''\<rparr>)\<rparr>]
   \<and> emitted (loop_state (routeOut_iter ex_timeouts ''step1'' 1
        (routeOut_init\<lparr>egressTarget := [''t1'' \<mapsto> 0]\<rparr>)
        (StepErrRecv \<lparr>TargetError.Target = ex_target, Err = Some ''boom''\<rparr> None (0, None, Some 1))))
      = []"
  by (simp add: routeOut_eval json_eval)

section \<open>Errors of the emitter\<close>

lemma silent_eqD: "silent a = silent b \<Longrightarrow> a = b\<lparr>warnings := warnings a\<rparr>"
proof -
  assume "silent a = silent b"
  then have "(silent a)\<lparr>warnings := warnings a\<rparr> = (silent b)\<lparr>warnings := warnings a\<rparr>"
    by simp
  then show ?thesis by (simp add: silent_def)
qed

lemma routeIn_iter_silent:
  "map_loop silent (routeIn_iter l n (s\<lparr>warnings := w\<rparr>) (hush_in ev))
     = map_loop silent (routeIn_iter l n s ev)"
  by (cases ev) (simp_all add: routeIn_iter_def routeIn_dispatch_def silent_def Let_def)

lemma routeIn_enabled_silent:
  "routeIn_enabled (s\<lparr>warnings := w\<rparr>) (hush_in ev) = routeIn_enabled s ev"
  by (cases ev) simp_all

lemma map_loop_eq_cases:
  assumes "map_loop f x = map_loop f y"
  shows "(\<exists>a b. x = Continue a \<and> y = Continue b \<and> f a = f b)
       \<or> (\<exists>a b. x = Break a \<and> y = Break b \<and> f a = f b)
       \<or> (\<exists>p a b. x = Panic p a \<and> y = Panic p b \<and> f a = f b)"
  using assms by (cases x; cases y) simp_all

lemma routeIn_loop_silent:
  "map_run silent (routeIn_loop l (s\<lparr>warnings := w\<rparr>) (map (apsnd hush_in) evs))
     = map_run silent (routeIn_loop l s evs)"
proof (induction evs arbitrary: s w)
  case Nil
  show ?case by (simp add: silent_def)
next
  case (Cons a evs)
  obtain now ev where a: "a = (now, ev)" by (cases a)
  show ?case
  proof (cases "routeIn_enabled s ev")
    case False
    with a show ?thesis by (simp add: routeIn_enabled_silent)
  next
    case True
    from map_loop_eq_cases [OF routeIn_iter_silent [where l = l and n = now and s = s and w = w and ev = ev]]
    show ?thesis
    proof (elim disjE exE conjE)
      fix x y
      assume xy: "routeIn_iter l now (s\<lparr>warnings := w\<rparr>) (hush_in ev) = Continue x"
        "routeIn_iter l now s ev = Continue y" "silent x = silent y"
      from silent_eqD [OF xy(3)] have "x = y\<lparr>warnings := warnings x\<rparr>" .
      with Cons.IH [where s = y and w = "warnings x"] xy a True show ?thesis
        by (simp add: routeIn_enabled_silent)
    next
      fix x y
      assume "routeIn_iter l now (s\<lparr>warnings := w\<rparr>) (hush_in ev) = Break x"
        "routeIn_iter l now s ev = Break y" "silent x = silent y"
      with a True show ?thesis by (simp add: routeIn_enabled_silent)
    next
      fix p x y
      assume "routeIn_iter l now (s\<lparr>warnings := w\<rparr>) (hush_in ev) = Panic p x"
        "routeIn_iter l now s ev = Panic p y" "silent x = silent y"
      with a True show ?thesis by (simp add: routeIn_enabled_silent)
    qed
  qed
qed

lemma routeOut_iter_silent:
  "map_loop silent (routeOut_iter ts l n (s\<lparr>warnings := w\<rparr>) (hush_out ev))
     = map_loop silent (routeOut_iter ts l n s ev)"
proof (cases ev)
  case (StepOutRecv t emitErr sch)
  obtain seed c r where sch: "sch = (seed, c, r)" by (cases sch)
  obtain e sent t' where w: "writeTimeout seed n c r t (MessageTimeout ts) = (e, sent, t')"
    by (cases "writeTimeout seed n c r t (MessageTimeout ts)")
  show ?thesis using StepOutRecv sch w
    by (cases "egressTarget s (ID t)"; cases e)
       (simp_all add: routeOut_iter_def emitOutEvent_def silent_def Let_def)
next
  case (StepErrRecv te emitErr sch)
  obtain seed c r where sch: "sch = (seed, c, r)" by (cases sch)
  obtain e sent t' where w: "writeTargetError seed n c r te (MessageTimeout ts) = (e, sent, t')"
    by (cases "writeTargetError seed n c r te (MessageTimeout ts)")
  show ?thesis using StepErrRecv sch w
    by (cases "egressTarget s (ID (TargetError.Target te))"; cases e; cases "Err te")
       (simp_all add: routeOut_iter_def emitOutEvent_def json_Marshal_def silent_def Let_def)
qed (simp_all add: routeOut_iter_def silent_def)

lemma routeOut_enabled_silent:
  "routeOut_enabled (s\<lparr>warnings := w\<rparr>) (hush_out ev) = routeOut_enabled s ev"
  by (cases ev) simp_all

lemma routeOut_loop_silent:
  "map_run silent (routeOut_loop ts l (s\<lparr>warnings := w\<rparr>) (map (apsnd hush_out) evs))
     = map_run silent (routeOut_loop ts l s evs)"
proof (induction evs arbitrary: s w)
  case Nil
  show ?case by (simp add: silent_def)
next
  case (Cons a evs)
  obtain now ev where a: "a = (now, ev)" by (cases a)
  show ?case
  proof (cases "routeOut_enabled s ev")
    case False
    with a show ?thesis by (simp add: routeOut_enabled_silent)
  next
    case True
    from map_loop_eq_cases [OF routeOut_iter_silent [where ts = ts and l = l and n = now and s = s and w = w and ev = ev]]
    show ?thesis
    proof (elim disjE exE conjE)
      fix x y
      assume xy: "routeOut_iter ts l now (s\<lparr>warnings := w\<rparr>) (hush_out ev) = Continue x"
        "routeOut_iter ts l now s ev = Continue y" "silent x = silent y"
      from silent_eqD [OF xy(3)] have "x = y\<lparr>warnings := warnings x\<rparr>" .
      with Cons.IH [where s = y and w = "warnings x"] xy a True show ?thesis
        by (simp add: routeOut_enabled_silent)
    next
      fix x y
      assume "routeOut_iter ts l now (s\<lparr>warnings := w\<rparr>) (hush_out ev) = Break x"
        "routeOut_iter ts l now s ev = Break y" "silent x = silent y"
      with a True show ?thesis by (simp add: routeOut_enabled_silent)
    next
      fix p x y
      assume "routeOut_iter ts l now (s\<lparr>warnings := w\<rparr>) (hush_out ev) = Panic p x"
        "routeOut_iter ts l now s ev = Panic p y" "silent x = silent y"
      with a True show ?thesis by (simp add: routeOut_enabled_silent)
    qed
  qed
qed

text \<open>
  Claim C9. Whether \<^verbatim>\<open>Emit\<close> fails or succeeds changes nothing but the log: an iteration
  of \<^verbatim>\<open>routeIn\<close> that receives an injection result (events \<^verbatim>\<open>TargetIn\<close>,
  \<^verbatim>\<open>TargetInErr\<close>) and an iteration of \<^verbatim>\<open>routeOut\<close> that receives a target (events
  \<^verbatim>\<open>TargetOut\<close>, \<^verbatim>\<open>TargetErr\<close>) end the same way and in the same state up to the
  warnings, with the same routing error and the same targets forwarded, as when \<^verbatim>\<open>Emit\<close>
  succeeds; when \<^verbatim>\<open>Emit\<close> fails exactly one warning is logged. The same holds of whole
  runs of both loops.
\<close>

theorem emitter_errors_only_logged:
  "map_loop silent (routeIn_iter stepLabel now si (InjectResult i e emitErr))
     = map_loop silent (routeIn_iter stepLabel now si (InjectResult i e None))
   \<and> map_loop silent (routeOut_iter timeouts stepLabel now so (StepOutRecv t emitErr sch))
     = map_loop silent (routeOut_iter timeouts stepLabel now so (StepOutRecv t None sch))
   \<and> map_loop silent (routeOut_iter timeouts stepLabel now so (StepErrRecv te emitErr sch))
     = map_loop silent (routeOut_iter timeouts stepLabel now so (StepErrRecv te None sch))
   \<and> (emitErr \<noteq> None \<longrightarrow>
        length (warnings (loop_state (routeIn_iter stepLabel now si (InjectResult i e emitErr))))
          = Suc (length (warnings si)))
   \<and> (emitErr \<noteq> None \<and> egressTarget so (ID t) = None \<longrightarrow>
        length (warnings (loop_state
                  (routeOut_iter timeouts stepLabel now so (StepOutRecv t emitErr sch))))
          = Suc (length (warnings so)))
   \<and> (emitErr \<noteq> None \<and> egressTarget so (ID (TargetError.Target te)) = None \<longrightarrow>
        length (warnings (loop_state
                  (routeOut_iter timeouts stepLabel now so (StepErrRecv te emitErr sch))))
          = Suc (length (warnings so)))
   \<and> map_run silent (routeIn_loop stepLabel routeIn_init evsIn)
     = map_run silent (routeIn_loop stepLabel routeIn_init (map (apsnd hush_in) evsIn))
   \<and> map_run silent (routeOut_loop timeouts stepLabel routeOut_init evsOut)
     = map_run silent (routeOut_loop timeouts stepLabel routeOut_init (map (apsnd hush_out) evsOut))"
proof -
  obtain seed c r where sch: "sch = (seed, c, r)" by (cases sch)
  obtain eo sento to where wo:
    "writeTimeout seed now c r t (MessageTimeout timeouts) = (eo, sento, to)"
    by (cases "writeTimeout seed now c r t (MessageTimeout timeouts)")
  obtain ee sente te' where we:
    "writeTargetError seed now c r te (MessageTimeout timeouts) = (ee, sente, te')"
    by (cases "writeTargetError seed now c r te (MessageTimeout timeouts)")
  have a: "map_loop silent (routeIn_iter stepLabel now si (InjectResult i e emitErr))
     = map_loop silent (routeIn_iter stepLabel now si (InjectResult i e None))"
    using routeIn_iter_silent [where l = stepLabel and n = now and s = si
        and w = "warnings si" and ev = "InjectResult i e emitErr"]
    by simp
  have b: "map_loop silent (routeOut_iter timeouts stepLabel now so (StepOutRecv t emitErr sch))
     = map_loop silent (routeOut_iter timeouts stepLabel now so (StepOutRecv t None sch))"
    using routeOut_iter_silent [where ts = timeouts and l = stepLabel and n = now and s = so
        and w = "warnings so" and ev = "StepOutRecv t emitErr sch"]
    by simp
  have c: "map_loop silent (routeOut_iter timeouts stepLabel now so (StepErrRecv te emitErr sch))
     = map_loop silent (routeOut_iter timeouts stepLabel now so (StepErrRecv te None sch))"
    using routeOut_iter_silent [where ts = timeouts and l = stepLabel and n = now and s = so
        and w = "warnings so" and ev = "StepErrRecv te emitErr sch"]
    by simp
  have d: "emitErr \<noteq> None \<longrightarrow>
        length (warnings (loop_state (routeIn_iter stepLabel now si (InjectResult i e emitErr))))
          = Suc (length (warnings si))"
    by (simp add: routeIn_iter_def routeIn_dispatch_def Let_def)
  have e: "emitErr \<noteq> None \<and> egressTarget so (ID t) = None \<longrightarrow>
        length (warnings (loop_state
                  (routeOut_iter timeouts stepLabel now so (StepOutRecv t emitErr sch))))
          = Suc (length (warnings so))"
    using sch wo by (cases eo) (simp_all add: routeOut_iter_def emitOutEvent_def Let_def)
  have f: "emitErr \<noteq> None \<and> egressTarget so (ID (TargetError.Target te)) = None \<longrightarrow>
        length (warnings (loop_state
                  (routeOut_iter timeouts stepLabel now so (StepErrRecv te emitErr sch))))
          = Suc (length (warnings so))"
    using sch we
    by (cases ee; cases "Err te")
       (simp_all add: routeOut_iter_def emitOutEvent_def json_Marshal_def Let_def)
  have g: "map_run silent (routeIn_loop stepLabel routeIn_init evsIn)
     = map_run silent (routeIn_loop stepLabel routeIn_init (map (apsnd hush_in) evsIn))"
    using routeIn_loop_silent [where l = stepLabel and s = routeIn_init
        and w = "warnings routeIn_init" and evs = evsIn]
    by simp
  have h: "map_run silent (routeOut_loop timeouts stepLabel routeOut_init evsOut)
     = map_run silent (routeOut_loop timeouts stepLabel routeOut_init (map (apsnd hush_out) evsOut))"
    using routeOut_loop_silent [where ts = timeouts and l = stepLabel and s = routeOut_init
        and w = "warnings routeOut_init" and evs = evsOut]
    by simp
  from a b c d e f g h show ?thesis by blast
qed


theorem emitter_errors_only_logged_witness:
  "routeIn_iter ''step1'' 1
      (routeIn_init\<lparr>routeInProgress := True, writers := [ex_target]\<rparr>)
      (InjectResult 0 None (Some (Errorf ''storage is down'' [])))
     = Continue (routeIn_init\<lparr>
         emitted := [\<lparr>EventName = EventTargetIn, Target = ex_target, Payload = None\<rparr>],
         warnings := [''could not emit %v event for Target: %+v'']\<rparr>)
   \<and> routeIn_iter ''step1'' 1
      (routeIn_init\<lparr>routeInProgress := True, writers := [ex_target]\<rparr>)
      (InjectResult 0 None None)
     = Continue (routeIn_init\<lparr>
         emitted := [\<lparr>EventName = EventTargetIn, Target = ex_target, Payload = None\<rparr>]\<rparr>)
   \<and> egressTarget routeOut_init (ID ex_target) = None
   \<and> warnings (loop_state (routeOut_iter ex_timeouts ''step1'' 0 routeOut_init
        (StepOutRecv ex_target (Some (Errorf ''storage is down'' [])) (0, None, Some 0))))
      = [''could not emit %v event for target: %v'']
   \<and> forwarded (loop_state (routeOut_iter ex_timeouts ''step1'' 0 routeOut_init
        (StepOutRecv ex_target (Some (Errorf ''storage is down'' [])) (0, None, Some 0))))
      = [ex_target]
   \<and> warnings (loop_state (routeOut_iter ex_timeouts ''step1'' 0 routeOut_init
        (StepErrRecv \<lparr>TargetError.Target = ex_target, Err = Some ''boom''\<rparr>
           (Some (Errorf ''storage is down'' [])) (0, None, Some 0))))
      = [''could not emit err event for target: %v'']
   \<and> failed (loop_state (routeOut_iter ex_timeouts ''step1'' 0 routeOut_init
        (StepErrRecv \<lparr>TargetError.Target = ex_target, Err = Some ''boom''\<rparr>
           (Some (Errorf ''storage is down'' [])) (0, None, Some 0))))
      = [\<lparr>TargetError.Target = ex_target, Err = Some ''boom''\<rparr>]"
  using emitter_errors_only_logged [where stepLabel = "''step1''" and now = 1
      and si = "routeIn_init\<lparr>routeInProgress := True, writers := [ex_target]\<rparr>"
      and i = 0 and e = None and emitErr = "Some (Errorf ''storage is down'' [])"
      and timeouts = ex_timeouts and so = routeOut_init and t = ex_target
      and te = "\<lparr>TargetError.Target = ex_target, Err = Some ''boom''\<rparr>"
      and sch = "(0, None, Some 0)" and evsIn = "[]" and evsOut = "[]"]
  by (simp add: routeIn_iter_def routeIn_dispatch_def routeIn_init_def routeOut_eval)

section \<open>\<^verbatim>\<open>route\<close> and \<^verbatim>\<open>Run\<close>: claims\<close>

lemma select1_first:
  assumes "a = Some u" "max now u < now + d"
  shows "select_after seed now [a] d = (0, max now u)"
  using assms by (auto simp: select_unfold)

text \<open>
  Claim C2. When \<^verbatim>\<open>routeIn\<close> and \<^verbatim>\<open>routeOut\<close> have both returned and the pipeline
  receives the result within the \<^verbatim>\<open>Message\<close> timeout, the error delivered is the first
  non-nil one of the two in the order \<^verbatim>\<open>routeIn\<close>, \<^verbatim>\<open>routeOut\<close>; when both are nil and
  the number of entries of \<^verbatim>\<open>ingressTarget\<close> differs from the number of entries of
  \<^verbatim>\<open>egressTarget\<close>, it is the error ``step completed but did not return all injected
  Targets''; otherwise it is nil. When \<^verbatim>\<open>routeIn\<close> returned no error, the entries of
  \<^verbatim>\<open>ingressTarget\<close> are the IDs of the targets injected, which are all the targets
  received; with pairwise different IDs their number is the number of targets injected.
\<close>

theorem route_first_error_or_mismatch:
  assumes "routeIn_loop (TestStepLabel b) routeIn_init evsIn = Exited si"
    and "routeOut_loop timeouts (TestStepLabel b) routeOut_init evsOut = Exited so"
    and "resultReady = Some u" and "max joined u < joined + MessageTimeout timeouts"
  shows "route timeouts b evsIn evsOut seed joined resultReady =
     Delivered \<lparr>bundle = b, err =
       (case routeIn_err si of
          Some e \<Rightarrow> Some e
        | None \<Rightarrow>
            (case routeOut_err so of
               Some e \<Rightarrow> Some e
             | None \<Rightarrow>
                 if card (dom (ingressTarget si)) \<noteq> card (dom (egressTarget so)) then
                   Some (Errorf
                     ''step %s completed but did not return all injected Targets (%d!=%d)''
                     [ArgString (TestStepLabel b), ArgInt (int (card (dom (ingressTarget si)))),
                      ArgInt (int (card (dom (egressTarget so))))])
                 else None))\<rparr>
     \<and> (routeIn_err si = None \<longrightarrow>
          dom (ingressTarget si) = ID ` set (injected si) \<and> injected si = received si)
     \<and> (routeIn_err si = None \<and> distinct (map ID (injected si)) \<longrightarrow>
          card (dom (ingressTarget si)) = length (injected si))"
proof -
  have sel: "select_after seed joined [resultReady] (MessageTimeout timeouts) = (0, max joined u)"
    using assms(3,4) by (rule select1_first)
  have deliv: "route timeouts b evsIn evsOut seed joined resultReady =
     Delivered \<lparr>bundle = b, err = routingErr b (routeIn_return si) (routeOut_return so)\<rparr>"
    using assms(1,2) sel by (simp add: route_def)
  have err: "routingErr b (routeIn_return si) (routeOut_return so) =
       (case routeIn_err si of
          Some e \<Rightarrow> Some e
        | None \<Rightarrow>
            (case routeOut_err so of
               Some e \<Rightarrow> Some e
             | None \<Rightarrow>
                 if card (dom (ingressTarget si)) \<noteq> card (dom (egressTarget so)) then
                   Some (Errorf
                     ''step %s completed but did not return all injected Targets (%d!=%d)''
                     [ArgString (TestStepLabel b), ArgInt (int (card (dom (ingressTarget si)))),
                      ArgInt (int (card (dom (egressTarget so))))])
                 else None))"
    by (cases "routeIn_err si"; cases "routeOut_err so")
       (simp_all add: routingErr_def routeIn_return_def routeOut_return_def)
  have inj: "routeIn_err si = None \<longrightarrow>
          dom (ingressTarget si) = ID ` set (injected si) \<and> injected si = received si"
    using routeIn_loop_inv [OF routeIn_init_running, of "TestStepLabel b" evsIn] assms(1)
    by (auto simp: routeIn_exited_def routeIn_common_def)
  have cnt: "routeIn_err si = None \<and> distinct (map ID (injected si)) \<longrightarrow>
          card (dom (ingressTarget si)) = length (injected si)"
  proof
    assume a: "routeIn_err si = None \<and> distinct (map ID (injected si))"
    with inj have "dom (ingressTarget si) = set (map ID (injected si))" by simp
    moreover from a have "card (set (map ID (injected si))) = length (map ID (injected si))"
      by (intro distinct_card) simp
    ultimately show "card (dom (ingressTarget si)) = length (injected si)" by simp
  qed
  from deliv err inj cnt show ?thesis by simp
qed

theorem route_first_error_or_mismatch_witness:
  "route ex_timeouts ex_bundle
      [(0, RouteInRecv ex_target), (1, InjectResult 0 None None), (2, RouteInClosed)]
      [(3, StepOutClosed), (4, StepErrClosed)] 0 5 (Some 6)
    = Delivered \<lparr>bundle = ex_bundle, err =
        Some (Errorf ''step %s completed but did not return all injected Targets (%d!=%d)''
                [ArgString ''step1'', ArgInt 1, ArgInt 0])\<rparr>"
proof -
  let ?si = "\<lparr>emitted = [\<lparr>EventName = EventTargetIn, Target = ex_target, Payload = None\<rparr>],
      warnings = [], routeIn_err = None, routeInProgress = False, targets = [],
      ingressTarget = [''t1'' \<mapsto> (0::nat)], routeIn_open = False, writers = [],
      received = [ex_target], injected = [ex_target], stepIn_closes = 1\<rparr>"
  let ?so = "\<lparr>emitted = [], warnings = [], routeOut_err = None,
      egressTarget = (Map.empty :: string \<rightharpoonup> nat),
      stepOut_open = False, stepErr_open = False, forwarded = [], failed = [],
      routeOut_closes = 1\<rparr>"
  have i: "routeIn_loop (TestStepLabel ex_bundle) routeIn_init
      [(0, RouteInRecv ex_target), (1, InjectResult 0 None None), (2, RouteInClosed)] = Exited ?si"
    by (simp add: routeIn_eval)
  have o: "routeOut_loop ex_timeouts (TestStepLabel ex_bundle) routeOut_init
      [(3, StepOutClosed), (4, StepErrClosed)] = Exited ?so"
    by (simp add: routeOut_iter_def routeOut_init_def)
  have m: "max 5 6 < 5 + MessageTimeout ex_timeouts" by simp
  from route_first_error_or_mismatch [OF i o refl m, of 0]
  show ?thesis by simp
qed

text \<open>
  Claim C8. For a test without step bundles \<^verbatim>\<open>Run\<close> returns the error
  \<^verbatim>\<open>no steps to run for test\<close> and has neither built nor run a pipeline. For a test with
  step bundles it builds the pipeline, starts the injection and the pipeline, and, whatever
  number of completed targets it receives first, returns the error that the pipeline's
  \<^verbatim>\<open>run\<close> returned (nil included).
\<close>

theorem Run_no_steps_or_pipeline_error:
  "(TestStepsBundles test = [] \<longrightarrow>
      Run test tgts evs = ([], Some (Some (Errorf ''no steps to run for test'' []))))
   \<and> (TestStepsBundles test \<noteq> [] \<longrightarrow>
      Run test tgts (map CompletedTarget completed @ ErrCh e # evs) =
        ([NewPipeline (TestStepsBundles test), PipelineInit, GoInjectTargets tgts, GoPipelineRun],
         Some e))"
proof -
  have "Run_wait (map CompletedTarget completed @ ErrCh e # evs) = Some e"
    by (induction completed) simp_all
  then show ?thesis by (simp add: Run_def)
qed

theorem Run_no_steps_or_pipeline_error_witness:
  "Run \<lparr>TestStepsBundles = []\<rparr> [ex_target] [] =
      ([], Some (Some (Errorf ''no steps to run for test'' [])))
   \<and> Run \<lparr>TestStepsBundles = [ex_bundle]\<rparr> [ex_target]
        [CompletedTarget ex_target, ErrCh (Some (Errorf ''pipeline failed'' []))] =
      ([NewPipeline [ex_bundle], PipelineInit, GoInjectTargets [ex_target], GoPipelineRun],
       Some (Some (Errorf ''pipeline failed'' [])))
   \<and> Run \<lparr>TestStepsBundles = [ex_bundle]\<rparr> [ex_target] [CompletedTarget ex_target, ErrCh None] =
      ([NewPipeline [ex_bundle], PipelineInit, GoInjectTargets [ex_target], GoPipelineRun],
       Some None)"
  using
    Run_no_steps_or_pipeline_error [where test = "\<lparr>TestStepsBundles = []\<rparr>"
      and tgts = "[ex_target]" and evs = "[]"]
    Run_no_steps_or_pipeline_error [where test = "\<lparr>TestStepsBundles = [ex_bundle]\<rparr>"
      and tgts = "[ex_target]" and completed = "[ex_target]"
      and e = "Some (Errorf ''pipeline failed'' [])" and evs = "[]"]
    Run_no_steps_or_pipeline_error [where test = "\<lparr>TestStepsBundles = [ex_bundle]\<rparr>"
      and tgts = "[ex_target]" and completed = "[ex_target]" and e = None and evs = "[]"]
  by simp

end
